theory Spec2Isabelle
  imports Complex_Main "HOL-Library.AList" "HOL-Library.Sublist"
begin

section \<open>Values and objects of the product catalogue (src/server.js)\<close>

text \<open>
  The server keeps its products as plain JavaScript objects and merges request bodies
  into them, so a product is modelled as what it is at run time: an ordered list of own
  properties. \<open>JUndefined\<close> is a value of its own, because \<open>Create\<close> stores an
  omitted \<open>description\<close> or \<open>category\<close> as an own property holding \<open>undefined\<close>.
  Strings are ASCII character lists; numbers that the server only stores (prices) are
  reals.
\<close>

datatype val =
    JUndefined
  | JNull
  | JBool bool
  | JNum real
  | JStr string
  | JArr "val list"
  | JObj "(string \<times> val) list"

type_synonym obj = "(string \<times> val) list"

text \<open>Reading \<open>o.k\<close>: the own property, \<open>undefined\<close> when there is none.\<close>

definition field :: "obj \<Rightarrow> string \<Rightarrow> val" where
  "field ob k = (case map_of ob k of None \<Rightarrow> JUndefined | Some v \<Rightarrow> v)"

text \<open>JavaScript truthiness, as \<open>!x\<close>, \<open>x || y\<close> and \<open>if (x)\<close> use it.\<close>

fun truthy :: "val \<Rightarrow> bool" where
  "truthy JUndefined = False"
| "truthy JNull = False"
| "truthy (JBool b) = b"
| "truthy (JNum x) = (x \<noteq> 0)"
| "truthy (JStr s) = (s \<noteq> [])"
| "truthy (JArr xs) = True"
| "truthy (JObj kvs) = True"

fun typeof :: "val \<Rightarrow> string" where
  "typeof JUndefined = ''undefined''"
| "typeof JNull = ''object''"
| "typeof (JBool b) = ''boolean''"
| "typeof (JNum x) = ''number''"
| "typeof (JStr s) = ''string''"
| "typeof (JArr xs) = ''object''"
| "typeof (JObj kvs) = ''object''"

text \<open>
  The object spread \<open>{ ...a, ...b }\<close>: the properties of \<open>a\<close> in their order, each
  property of \<open>b\<close> replacing the one of the same name in place or being appended.
  (JavaScript enumerates keys that are array indices before the others; nothing below
  depends on the order of properties.)
\<close>

definition spread :: "obj \<Rightarrow> obj \<Rightarrow> obj" where
  "spread a b = fold (\<lambda>(k, v) acc. AList.update k v acc) b a"

subsection \<open>Strings\<close>

definition lower_char :: "char \<Rightarrow> char" where
  "lower_char c =
     (let n = (of_char c :: nat) in if 65 \<le> n \<and> n \<le> 90 then char_of (n + 32) else c)"

definition toLowerCase :: "string \<Rightarrow> string" where
  "toLowerCase s = map lower_char s"

text \<open>\<open>s.includes(t)\<close>: \<open>t\<close> occurs in \<open>s\<close> as a contiguous run.\<close>

fun str_includes :: "string \<Rightarrow> string \<Rightarrow> bool" where
  "str_includes [] t = (t = [])"
| "str_includes (c # cs) t = (if prefix t (c # cs) then True else str_includes cs t)"

subsection \<open>Numbers of the pagination arithmetic\<close>

text \<open>
  A JavaScript number, as far as the pagination meets it: \<open>NaN\<close>, an integer, or an
  infinity. Every integer below \<open>2^53\<close> in magnitude is a number; any other integer
  is rounded to the nearest number (53 significant bits, a tie going to the even one),
  and is an infinity when the rounded magnitude reaches \<open>2^1024\<close>. \<open>-\<close>, \<open>*\<close> and
  \<open>+\<close> round the exact result in this way; \<open>NaN\<close> is absorbing, and so are the
  infinities except in \<open>Infinity - Infinity\<close> and \<open>Infinity * 0\<close>, which are
  \<open>NaN\<close>. The sign of a zero is not kept: \<open>slice\<close> ignores it and \<open>res.json\<close>
  writes \<open>0\<close> for both.
\<close>

datatype jsnum = NaN | Num int | PosInf | NegInf

text \<open>\<open>Number.isSafeInteger\<close>: the integers that every step computes exactly.\<close>

definition is_safe_integer :: "int \<Rightarrow> bool" where
  "is_safe_integer n = (\<bar>n\<bar> < 2 ^ 53)"

text \<open>The number of binary digits of a natural number.\<close>

fun bit_length :: "nat \<Rightarrow> nat" where
  "bit_length n = (if n = 0 then 0 else Suc (bit_length (n div 2)))"

declare bit_length.simps [simp del]

definition to_double :: "int \<Rightarrow> jsnum" where
  "to_double n =
     (if is_safe_integer n then Num n
      else
        (let a = nat \<bar>n\<bar>;
             e = bit_length a - 53;
             q = a div 2 ^ e;
             r = a mod 2 ^ e;
             half = 2 ^ (e - 1);
             up = (if half < r then True else if r = half then odd q else False);
             m = (if up then q + 1 else q) * 2 ^ e
         in if 2 ^ 1024 \<le> m then (if n < 0 then NegInf else PosInf)
            else Num (if n < 0 then - int m else int m)))"

fun js_neg :: "jsnum \<Rightarrow> jsnum" where
  "js_neg NaN = NaN"
| "js_neg (Num a) = Num (- a)"
| "js_neg PosInf = NegInf"
| "js_neg NegInf = PosInf"

fun js_add :: "jsnum \<Rightarrow> jsnum \<Rightarrow> jsnum" where
  "js_add (Num a) (Num b) = to_double (a + b)"
| "js_add NaN y = NaN"
| "js_add x NaN = NaN"
| "js_add PosInf NegInf = NaN"
| "js_add NegInf PosInf = NaN"
| "js_add PosInf y = PosInf"
| "js_add x PosInf = PosInf"
| "js_add NegInf y = NegInf"
| "js_add x NegInf = NegInf"

definition js_sub :: "jsnum \<Rightarrow> jsnum \<Rightarrow> jsnum" where
  "js_sub x y = js_add x (js_neg y)"

fun js_mul :: "jsnum \<Rightarrow> jsnum \<Rightarrow> jsnum" where
  "js_mul (Num a) (Num b) = to_double (a * b)"
| "js_mul NaN y = NaN"
| "js_mul x NaN = NaN"
| "js_mul PosInf (Num b) = (if b = 0 then NaN else if 0 < b then PosInf else NegInf)"
| "js_mul NegInf (Num b) = (if b = 0 then NaN else if 0 < b then NegInf else PosInf)"
| "js_mul (Num a) PosInf = (if a = 0 then NaN else if 0 < a then PosInf else NegInf)"
| "js_mul (Num a) NegInf = (if a = 0 then NaN else if 0 < a then NegInf else PosInf)"
| "js_mul PosInf PosInf = PosInf"
| "js_mul PosInf NegInf = NegInf"
| "js_mul NegInf PosInf = NegInf"
| "js_mul NegInf NegInf = PosInf"

definition is_ws :: "char \<Rightarrow> bool" where
  "is_ws c = (of_char c \<in> {9, 10, 11, 12, 13, 32 :: nat})"

text \<open>The value of a digit in the given radix, if it is one.\<close>

definition digit_of :: "nat \<Rightarrow> char \<Rightarrow> nat option" where
  "digit_of radix c =
     (let n = (of_char c :: nat);
          d = (if 48 \<le> n \<and> n \<le> 57 then Some (n - 48)
               else if 97 \<le> n \<and> n \<le> 122 then Some (n - 87)
               else if 65 \<le> n \<and> n \<le> 90 then Some (n - 55)
               else None)
      in case d of None \<Rightarrow> None | Some v \<Rightarrow> if v < radix then Some v else None)"

definition digits_value :: "nat \<Rightarrow> string \<Rightarrow> nat" where
  "digits_value radix ds = fold (\<lambda>c acc. acc * radix + (case digit_of radix c of None \<Rightarrow> 0 | Some d \<Rightarrow> d)) ds 0"

text \<open>
  \<open>parseInt(s)\<close> with no radix: leading white space is skipped, a sign is read, a
  \<open>0x\<close> prefix selects radix 16, and the longest run of digits is the value, rounded
  to a number; no digit at all is \<open>NaN\<close>. What follows the digits is ignored.
\<close>

definition parseInt :: "string \<Rightarrow> jsnum" where
  "parseInt s =
     (let t = dropWhile is_ws s;
          neg = (case t of [] \<Rightarrow> False | c # r \<Rightarrow> c = CHR ''-'');
          u = (case t of [] \<Rightarrow> [] | c # r \<Rightarrow> if c = CHR ''-'' then r else if c = CHR ''+'' then r else t);
          hex = (case u of a # b # r \<Rightarrow> a = CHR ''0'' \<and> (b = CHR ''x'' \<or> b = CHR ''X'') | _ \<Rightarrow> False);
          radix = (if hex then 16 else 10);
          v = (if hex then drop 2 u else u);
          ds = takeWhile (\<lambda>c. digit_of radix c \<noteq> None) v
      in if ds = [] then NaN
         else to_double
                (if neg then - int (digits_value radix ds) else int (digits_value radix ds)))"

text \<open>
  \<open>xs.slice(start, end)\<close>: each bound is made an integer or infinity (\<open>NaN\<close>
  becomes 0), a negative bound counts from the end of the list, and both are clamped to
  the list.
\<close>

definition clamp_index :: "nat \<Rightarrow> int \<Rightarrow> nat" where
  "clamp_index len r = (if r < 0 then nat (max (int len + r) 0) else min (nat r) len)"

definition slice_index :: "nat \<Rightarrow> jsnum \<Rightarrow> nat" where
  "slice_index len x =
     (case x of
        NaN \<Rightarrow> clamp_index len 0
      | Num n \<Rightarrow> clamp_index len n
      | PosInf \<Rightarrow> len
      | NegInf \<Rightarrow> 0)"

definition slice :: "'a list \<Rightarrow> jsnum \<Rightarrow> jsnum \<Rightarrow> 'a list" where
  "slice xs start end' =
     (let len = length xs;
          k = slice_index len start;
          final = slice_index len end'
      in take (final - k) (drop k xs))"

section \<open>Error model and responses\<close>

text \<open>
  \<open>NotFoundError\<close> and \<open>ValidationError\<close> are the two \<open>AppError\<close> subclasses and
  carry a status code; an exception of the runtime (\<open>ReferenceError\<close>, \<open>TypeError\<close>)
  has a message and no \<open>statusCode\<close>.
\<close>

datatype failure =
    NotFoundError string
  | ValidationError string
  | ReferenceError string
  | TypeError string

fun statusCode :: "failure \<Rightarrow> nat option" where
  "statusCode (NotFoundError m) = Some 404"
| "statusCode (ValidationError m) = Some 400"
| "statusCode (ReferenceError m) = None"
| "statusCode (TypeError m) = None"

fun message :: "failure \<Rightarrow> string" where
  "message (NotFoundError m) = m"
| "message (ValidationError m) = m"
| "message (ReferenceError m) = m"
| "message (TypeError m) = m"

text \<open>A value of the statistics object: a count, or the text a string concatenation left.\<close>

datatype statv = Count nat | Text string

text \<open>
  What a handler sends: the status code and the JSON envelope. \<open>ErrorReply m\<close> is
  \<open>{status: 'error', message: m}\<close>; every other envelope has \<open>status: 'success'\<close>.
  \<open>ListReply page total data\<close>, \<open>SearchReply count data\<close>, \<open>StatsReply data\<close>,
  \<open>DataReply data\<close> and \<open>MessageReply message data\<close> hold the remaining fields;
  \<open>Greeting\<close> is the text of the root route. The values are those handed to
  \<open>res.json\<close>, which writes a \<open>NaN\<close> as \<open>null\<close> and leaves out a property that is
  \<open>undefined\<close>.
\<close>

datatype reply =
    Greeting
  | ListReply jsnum nat "obj list"
  | SearchReply nat "obj list"
  | StatsReply "(string \<times> statv) list"
  | DataReply obj
  | MessageReply string obj
  | ErrorReply string

datatype response = Response nat reply

text \<open>The global error handler: \<open>err.statusCode || 500\<close> and \<open>err.message || ...\<close>.\<close>

definition error_handler :: "failure \<Rightarrow> response" where
  "error_handler err =
     Response (case statusCode err of None \<Rightarrow> 500 | Some c \<Rightarrow> if c = 0 then 500 else c)
       (ErrorReply (if message err = [] then ''Internal Server Error'' else message err))"

section \<open>Middleware\<close>

text \<open>
  \<open>authenticate\<close> answers 401 itself or calls \<open>next()\<close> (\<open>None\<close>);
  \<open>validateProduct\<close> hands a \<open>ValidationError\<close> to \<open>next\<close> or calls \<open>next()\<close>.
  The logger only writes to the console and is left out.
\<close>

definition unauthorized :: response where
  "unauthorized = Response 401 (ErrorReply ''Unauthorized: Missing or invalid API key'')"

definition authenticate :: "string option \<Rightarrow> response option" where
  "authenticate apiKey =
     (case apiKey of
        None \<Rightarrow> Some unauthorized
      | Some k \<Rightarrow>
          if k = [] then Some unauthorized
          else if k = ''mysecretapikey'' then None
          else Some unauthorized)"

definition validateProduct :: "obj \<Rightarrow> failure option" where
  "validateProduct body =
     (let name = field body ''name''; price = field body ''price'' in
      if truthy name then
        if typeof name = ''string'' then
          if price = JUndefined then
            Some (ValidationError ''Product price is required and must be a number'')
          else if typeof price = ''number'' then None
          else Some (ValidationError ''Product price is required and must be a number'')
        else Some (ValidationError ''Product name is required and must be a string'')
      else Some (ValidationError ''Product name is required and must be a string''))"

section \<open>The product store\<close>

definition seed :: "obj list" where
  "seed =
    [[(''id'', JStr ''1''), (''name'', JStr ''Laptop''),
      (''description'', JStr ''High-performance laptop with 16GB RAM''),
      (''price'', JNum 1200), (''category'', JStr ''electronics''), (''inStock'', JBool True)],
     [(''id'', JStr ''2''), (''name'', JStr ''Smartphone''),
      (''description'', JStr ''Latest model with 128GB storage''),
      (''price'', JNum 800), (''category'', JStr ''electronics''), (''inStock'', JBool True)],
     [(''id'', JStr ''3''), (''name'', JStr ''Coffee Maker''),
      (''description'', JStr ''Programmable coffee maker with timer''),
      (''price'', JNum 50), (''category'', JStr ''kitchen''), (''inStock'', JBool False)]]"

text \<open>\<open>p.id === id\<close> for the string \<open>id\<close> of the route.\<close>

definition has_id :: "string \<Rightarrow> obj \<Rightarrow> bool" where
  "has_id i p = (field p ''id'' = JStr i)"

fun findIndex :: "('a \<Rightarrow> bool) \<Rightarrow> 'a list \<Rightarrow> nat option" where
  "findIndex P [] = None"
| "findIndex P (x # xs) = (if P x then Some 0 else map_option Suc (findIndex P xs))"

definition not_found :: "string \<Rightarrow> failure" where
  "not_found i = NotFoundError (''Product with ID '' @ i @ '' not found'')"

section \<open>Handlers\<close>

text \<open>
  A handler that can fail returns \<open>Inl\<close> of the failure it passes to \<open>next\<close> or
  throws; Express hands both to the error handler.
\<close>

subsection \<open>List: \<open>GET /api/products\<close>\<close>

type_synonym query = "(string \<times> string) list"

text \<open>
  \<open>let { category, page = 1, limit = 3 } = req.query\<close> followed by \<open>parseInt\<close>: a
  missing parameter takes its default, which \<open>parseInt\<close> reads as the string of that
  number.
\<close>

definition page_of :: "query \<Rightarrow> jsnum" where
  "page_of q = parseInt (case map_of q ''page'' of None \<Rightarrow> ''1'' | Some s \<Rightarrow> s)"

definition limit_of :: "query \<Rightarrow> jsnum" where
  "limit_of q = parseInt (case map_of q ''limit'' of None \<Rightarrow> ''3'' | Some s \<Rightarrow> s)"

text \<open>\<open>if (category)\<close>: an absent or empty \<open>category\<close> filters nothing.\<close>

definition filtered_of :: "obj list \<Rightarrow> query \<Rightarrow> obj list" where
  "filtered_of products q =
     (case map_of q ''category'' of
        None \<Rightarrow> products
      | Some c \<Rightarrow>
          if c = [] then products
          else filter (\<lambda>p. field p ''category'' = JStr c) products)"

definition start_of :: "query \<Rightarrow> jsnum" where
  "start_of q = js_mul (js_sub (page_of q) (Num 1)) (limit_of q)"

definition end_of :: "query \<Rightarrow> jsnum" where
  "end_of q = js_add (start_of q) (limit_of q)"

definition list_products :: "obj list \<Rightarrow> query \<Rightarrow> response" where
  "list_products products q =
     (let filtered = filtered_of products q;
          paginated = slice filtered (start_of q) (end_of q)
      in Response 200 (ListReply (page_of q) (length filtered) paginated))"

subsection \<open>Search: \<open>GET /api/products/search\<close>\<close>

text \<open>\<open>p.name.toLowerCase()\<close>, which throws unless \<open>p.name\<close> is a string.\<close>

definition lower_name :: "obj \<Rightarrow> failure + string" where
  "lower_name p =
     (case field p ''name'' of
        JStr s \<Rightarrow> Inr (toLowerCase s)
      | JUndefined \<Rightarrow>
          Inl (TypeError (''Cannot read properties of undefined (reading '' @ [CHR 0x27] @
                 ''toLowerCase'' @ [CHR 0x27] @ '')''))
      | JNull \<Rightarrow>
          Inl (TypeError (''Cannot read properties of null (reading '' @ [CHR 0x27] @
                 ''toLowerCase'' @ [CHR 0x27] @ '')''))
      | _ \<Rightarrow> Inl (TypeError ''p.name.toLowerCase is not a function''))"

fun filter_by_name :: "string \<Rightarrow> obj list \<Rightarrow> failure + obj list" where
  "filter_by_name t [] = Inr []"
| "filter_by_name t (p # ps) =
     (case lower_name p of
        Inl err \<Rightarrow> Inl err
      | Inr n \<Rightarrow>
          (case filter_by_name t ps of
             Inl err \<Rightarrow> Inl err
           | Inr rs \<Rightarrow> Inr (if str_includes n (toLowerCase t) then p # rs else rs)))"

text \<open>
  The handler is declared as \<open>(req, res) => ...\<close>, so the \<open>next\<close> it calls for a
  missing term is not bound: evaluating it throws
  \<open>ReferenceError: next is not defined\<close> before any \<open>ValidationError\<close> is passed on.
\<close>

definition search_products :: "obj list \<Rightarrow> query \<Rightarrow> failure + response" where
  "search_products products q =
     (case map_of q ''name'' of
        None \<Rightarrow> Inl (ReferenceError ''next is not defined'')
      | Some name \<Rightarrow>
          if name = [] then Inl (ReferenceError ''next is not defined'')
          else
            (case filter_by_name name products of
               Inl err \<Rightarrow> Inl err
             | Inr results \<Rightarrow> Inr (Response 200 (SearchReply (length results) results))))"

subsection \<open>Stats: \<open>GET /api/products/stats\<close>\<close>

text \<open>
  The accumulator of the \<open>reduce\<close> is the object literal \<open>{}\<close>, which inherits from
  \<open>Object.prototype\<close>. The table lists the inherited properties with the text each
  becomes when \<open>+ 1\<close> converts it to a string (functions print as Node prints native
  functions).
\<close>

definition native :: "string \<Rightarrow> string" where
  "native f = ''function '' @ f @ ''() { [native code] }''"

definition object_prototype :: "(string \<times> string) list" where
  "object_prototype =
     [(''constructor'', native ''Object''),
      (''__defineGetter__'', native ''__defineGetter__''),
      (''__defineSetter__'', native ''__defineSetter__''),
      (''hasOwnProperty'', native ''hasOwnProperty''),
      (''__lookupGetter__'', native ''__lookupGetter__''),
      (''__lookupSetter__'', native ''__lookupSetter__''),
      (''isPrototypeOf'', native ''isPrototypeOf''),
      (''propertyIsEnumerable'', native ''propertyIsEnumerable''),
      (''toString'', native ''toString''),
      (''valueOf'', native ''valueOf''),
      (''__proto__'', ''[object Object]''),
      (''toLocaleString'', native ''toLocaleString'')]"

fun join_comma :: "string list \<Rightarrow> string" where
  "join_comma [] = []"
| "join_comma [s] = s"
| "join_comma (s # t # ss) = s @ '','' @ join_comma (t # ss)"

text \<open>
  The property key \<open>acc[v]\<close> uses: the string conversion of \<open>v\<close>. How a number
  prints is the runtime's matter and is the parameter \<open>fmt\<close>.
\<close>

fun ToString :: "(real \<Rightarrow> string) \<Rightarrow> val \<Rightarrow> string" where
  "ToString fmt JUndefined = ''undefined''"
| "ToString fmt JNull = ''null''"
| "ToString fmt (JBool b) = (if b then ''true'' else ''false'')"
| "ToString fmt (JNum x) = fmt x"
| "ToString fmt (JStr s) = s"
| "ToString fmt (JArr xs) =
     join_comma (map (\<lambda>v. if v = JUndefined then [] else if v = JNull then []
                          else ToString fmt v) xs)"
| "ToString fmt (JObj kvs) = ''[object Object]''"

text \<open>\<open>(acc[k] || 0) + 1\<close>, reading \<open>acc[k]\<close> from the object or its prototype.\<close>

definition bump :: "(string \<times> statv) list \<Rightarrow> string \<Rightarrow> statv" where
  "bump acc k =
     (case map_of acc k of
        Some (Count n) \<Rightarrow> Count (n + 1)
      | Some (Text s) \<Rightarrow> if s = [] then Count 1 else Text (s @ ''1'')
      | None \<Rightarrow>
          (case map_of object_prototype k of
             Some src \<Rightarrow> Text (src @ ''1'')
           | None \<Rightarrow> Count 1))"

text \<open>
  \<open>acc[k] = v\<close>: an own property is set, except for \<open>__proto__\<close>, whose inherited
  setter ignores a value that is neither an object nor \<open>null\<close>.
\<close>

definition assign :: "(string \<times> statv) list \<Rightarrow> string \<Rightarrow> statv \<Rightarrow> (string \<times> statv) list" where
  "assign acc k v = (if k = ''__proto__'' then acc else AList.update k v acc)"

text \<open>The property key that \<open>acc[product.category]\<close> addresses.\<close>

definition category_key :: "(real \<Rightarrow> string) \<Rightarrow> obj \<Rightarrow> string" where
  "category_key fmt product = ToString fmt (field product ''category'')"

definition stats_step ::
  "(real \<Rightarrow> string) \<Rightarrow> obj \<Rightarrow> (string \<times> statv) list \<Rightarrow> (string \<times> statv) list" where
  "stats_step fmt product acc =
     (let k = category_key fmt product in assign acc k (bump acc k))"

definition stats :: "(real \<Rightarrow> string) \<Rightarrow> obj list \<Rightarrow> (string \<times> statv) list" where
  "stats fmt products = fold (stats_step fmt) products []"

definition stats_products :: "(real \<Rightarrow> string) \<Rightarrow> obj list \<Rightarrow> response" where
  "stats_products fmt products = Response 200 (StatsReply (stats fmt products))"

subsection \<open>GetByID, Create, Update, Delete\<close>

definition get_product :: "obj list \<Rightarrow> string \<Rightarrow> failure + response" where
  "get_product products i =
     (case find (has_id i) products of
        None \<Rightarrow> Inl (not_found i)
      | Some product \<Rightarrow> Inr (Response 200 (DataReply product)))"

text \<open>
  \<open>uuid\<close> is what the call \<open>uuidv4()\<close> of this request returns; \<open>inStock ?? true\<close>
  replaces \<open>undefined\<close> and \<open>null\<close>.
\<close>

definition new_product :: "string \<Rightarrow> obj \<Rightarrow> obj" where
  "new_product uuid body =
     [(''id'', JStr uuid),
      (''name'', field body ''name''),
      (''description'', field body ''description''),
      (''price'', field body ''price''),
      (''category'', field body ''category''),
      (''inStock'',
         (let inStock = field body ''inStock'' in
          if inStock = JUndefined then JBool True
          else if inStock = JNull then JBool True
          else inStock))]"

definition create_product :: "string \<Rightarrow> obj list \<Rightarrow> obj \<Rightarrow> obj list \<times> response" where
  "create_product uuid products body =
     (let newProduct = new_product uuid body in
      (products @ [newProduct],
       Response 201 (MessageReply ''Product successfully added'' newProduct)))"

definition update_product :: "obj list \<Rightarrow> string \<Rightarrow> obj \<Rightarrow> failure + obj list \<times> response" where
  "update_product products i body =
     (case findIndex (has_id i) products of
        None \<Rightarrow> Inl (not_found i)
      | Some productIndex \<Rightarrow>
          (let updated = spread (products ! productIndex) body in
           Inr (products[productIndex := updated],
                Response 200 (MessageReply ''Product successfully updated'' updated))))"

definition delete_product :: "obj list \<Rightarrow> string \<Rightarrow> failure + obj list \<times> response" where
  "delete_product products i =
     (case findIndex (has_id i) products of
        None \<Rightarrow> Inl (not_found i)
      | Some productIndex \<Rightarrow>
          Inr (take productIndex products @ drop (Suc productIndex) products,
               Response 200 (MessageReply ''Product successfully deleted''
                 (products ! productIndex))))"

section \<open>Routes\<close>

text \<open>
  A request as the handlers see it: the method, the segments of the path (decoded, a
  trailing \<open>/\<close> dropped), the query parameters (string values), the \<open>x-api-key\<close>
  header and the parsed JSON body (an object; with no body the parser leaves \<open>{}\<close>).
\<close>

datatype http_method = GET | HEAD | POST | PUT | DELETE | OPTIONS | PATCH

record request =
  req_method :: http_method
  req_path :: "string list"
  req_query :: query
  req_api_key :: "string option"
  req_body :: obj

datatype seg = Lit string | Param string

datatype handler =
    Root
  | ListProducts
  | SearchProducts
  | StatsProducts
  | GetProduct
  | CreateProduct
  | UpdateProduct
  | DeleteProduct

text \<open>The routes in the order in which the file registers them.\<close>

definition routes :: "(http_method \<times> seg list \<times> handler) list" where
  "routes =
     [(GET, [], Root),
      (GET, [Lit ''api'', Lit ''products''], ListProducts),
      (GET, [Lit ''api'', Lit ''products'', Lit ''search''], SearchProducts),
      (GET, [Lit ''api'', Lit ''products'', Lit ''stats''], StatsProducts),
      (GET, [Lit ''api'', Lit ''products'', Param ''id''], GetProduct),
      (POST, [Lit ''api'', Lit ''products''], CreateProduct),
      (PUT, [Lit ''api'', Lit ''products'', Param ''id''], UpdateProduct),
      (DELETE, [Lit ''api'', Lit ''products'', Param ''id''], DeleteProduct)]"

text \<open>
  Express matches a literal segment without regard to case and lets a parameter take
  any non-empty segment; the result is \<open>req.params\<close>.
\<close>

fun match_path :: "seg list \<Rightarrow> string list \<Rightarrow> (string \<times> string) list option" where
  "match_path [] [] = Some []"
| "match_path (Lit l # ps) (s # ss) =
     (if toLowerCase s = toLowerCase l then match_path ps ss else None)"
| "match_path (Param x # ps) (s # ss) =
     (if s = [] then None else map_option (Cons (x, s)) (match_path ps ss))"
| "match_path _ _ = None"

text \<open>A \<open>HEAD\<close> request is served by the \<open>GET\<close> route of its path.\<close>

definition handles_method :: "http_method \<Rightarrow> http_method \<Rightarrow> bool" where
  "handles_method route_method m = (if m = HEAD then route_method = GET else route_method = m)"

fun dispatch ::
  "(http_method \<times> seg list \<times> handler) list \<Rightarrow> http_method \<Rightarrow> string list \<Rightarrow>
     (handler \<times> (string \<times> string) list) option" where
  "dispatch [] m p = None"
| "dispatch ((rm, pat, h) # rs) m p =
     (if handles_method rm m then
        (case match_path pat p of
           Some params \<Rightarrow> Some (h, params)
         | None \<Rightarrow> dispatch rs m p)
      else dispatch rs m p)"

definition param :: "(string \<times> string) list \<Rightarrow> string \<Rightarrow> string" where
  "param params k = (case map_of params k of None \<Rightarrow> [] | Some v \<Rightarrow> v)"

text \<open>A failure leaves the products as they were and is rendered by the error handler.\<close>

definition finish :: "obj list \<Rightarrow> failure + obj list \<times> response \<Rightarrow> obj list \<times> response" where
  "finish products r = (case r of Inl err \<Rightarrow> (products, error_handler err) | Inr out \<Rightarrow> out)"

text \<open>The routes with middleware: \<open>authenticate\<close>, \<open>validateProduct\<close>, then the handler.\<close>

definition route_create :: "string \<Rightarrow> obj list \<Rightarrow> request \<Rightarrow> obj list \<times> response" where
  "route_create uuid products req =
     (case authenticate (req_api_key req) of
        Some r \<Rightarrow> (products, r)
      | None \<Rightarrow>
          (case validateProduct (req_body req) of
             Some err \<Rightarrow> (products, error_handler err)
           | None \<Rightarrow> create_product uuid products (req_body req)))"

definition route_update :: "obj list \<Rightarrow> string \<Rightarrow> request \<Rightarrow> obj list \<times> response" where
  "route_update products i req =
     (case authenticate (req_api_key req) of
        Some r \<Rightarrow> (products, r)
      | None \<Rightarrow>
          (case validateProduct (req_body req) of
             Some err \<Rightarrow> (products, error_handler err)
           | None \<Rightarrow> finish products (update_product products i (req_body req))))"

definition route_delete :: "obj list \<Rightarrow> string \<Rightarrow> request \<Rightarrow> obj list \<times> response" where
  "route_delete products i req =
     (case authenticate (req_api_key req) of
        Some r \<Rightarrow> (products, r)
      | None \<Rightarrow> finish products (delete_product products i))"

fun run ::
  "(real \<Rightarrow> string) \<Rightarrow> string \<Rightarrow> handler \<Rightarrow> (string \<times> string) list \<Rightarrow> obj list \<Rightarrow> request \<Rightarrow>
     obj list \<times> response" where
  "run fmt uuid Root params products req = (products, Response 200 Greeting)"
| "run fmt uuid ListProducts params products req =
     (products, list_products products (req_query req))"
| "run fmt uuid SearchProducts params products req =
     finish products (map_sum id (Pair products) (search_products products (req_query req)))"
| "run fmt uuid StatsProducts params products req = (products, stats_products fmt products)"
| "run fmt uuid GetProduct params products req =
     finish products (map_sum id (Pair products) (get_product products (param params ''id'')))"
| "run fmt uuid CreateProduct params products req = route_create uuid products req"
| "run fmt uuid UpdateProduct params products req =
     route_update products (param params ''id'') req"
| "run fmt uuid DeleteProduct params products req =
     route_delete products (param params ''id'') req"

text \<open>
  One request against the current products: the first matching route runs; when none
  matches, the catch-all passes \<open>NotFoundError('Route not found')\<close> to the error handler.
\<close>

definition handle :: "(real \<Rightarrow> string) \<Rightarrow> string \<Rightarrow> obj list \<Rightarrow> request \<Rightarrow> obj list \<times> response" where
  "handle fmt uuid products req =
     (case dispatch routes (req_method req) (req_path req) of
        None \<Rightarrow> (products, error_handler (NotFoundError ''Route not found''))
      | Some (h, params) \<Rightarrow> run fmt uuid h params products req)"

section \<open>Notions of the specification\<close>

text \<open>
  What the specification's words denote, for comparison with the code: the records of
  \<open>xs\<close> at the indices \<open>i\<close> with \<open>a \<le> i < b\<close>, in order (indices that \<open>xs\<close> does
  not have select nothing); and \<open>t\<close> occurring in \<open>s\<close> as a substring when the case of
  letters is ignored.
\<close>

definition index_range :: "'a list \<Rightarrow> int \<Rightarrow> int \<Rightarrow> 'a list" where
  "index_range xs a b =
     map (\<lambda>i. xs ! i) (filter (\<lambda>i. a \<le> int i \<and> int i < b) [0..<length xs])"

text \<open>
  A bound as \<open>Array.prototype.slice\<close> reads it for a list of the given length: a
  negative bound counts from the end of the list, and not beyond its start.
\<close>

definition relative_bound :: "nat \<Rightarrow> int \<Rightarrow> int" where
  "relative_bound len b = (if b < 0 then max (int len + b) 0 else b)"

definition contains_ci :: "string \<Rightarrow> string \<Rightarrow> bool" where
  "contains_ci s t = (\<exists>u. sublist u s \<and> toLowerCase u = toLowerCase t)"

definition name_contains :: "string \<Rightarrow> obj \<Rightarrow> bool" where
  "name_contains t p = (case field p ''name'' of JStr s \<Rightarrow> contains_ci s t | _ \<Rightarrow> False)"

section \<open>Dispatch of the declared routes\<close>

lemma lower_literals:
  "toLowerCase ''api'' = ''api''" "toLowerCase ''products'' = ''products''"
  "toLowerCase ''search'' = ''search''" "toLowerCase ''stats'' = ''stats''"
  by (simp_all add: toLowerCase_def lower_char_def)

lemma dispatch_list: "dispatch routes GET [''api'', ''products''] = Some (ListProducts, [])"
  by (simp add: routes_def handles_method_def lower_literals)

lemma dispatch_search:
  "dispatch routes GET [''api'', ''products'', ''search''] = Some (SearchProducts, [])"
  by (simp add: routes_def handles_method_def lower_literals)

lemma dispatch_stats:
  "dispatch routes GET [''api'', ''products'', ''stats''] = Some (StatsProducts, [])"
  by (simp add: routes_def handles_method_def lower_literals)

lemma dispatch_get:
  "i \<noteq> [] \<Longrightarrow> toLowerCase i \<noteq> ''search'' \<Longrightarrow> toLowerCase i \<noteq> ''stats'' \<Longrightarrow>
   dispatch routes GET [''api'', ''products'', i] = Some (GetProduct, [(''id'', i)])"
  by (simp add: routes_def handles_method_def lower_literals)

lemma dispatch_post: "dispatch routes POST [''api'', ''products''] = Some (CreateProduct, [])"
  by (simp add: routes_def handles_method_def lower_literals)

lemma dispatch_put:
  "i \<noteq> [] \<Longrightarrow>
   dispatch routes PUT [''api'', ''products'', i] = Some (UpdateProduct, [(''id'', i)])"
  by (simp add: routes_def handles_method_def lower_literals)

lemma dispatch_delete:
  "i \<noteq> [] \<Longrightarrow>
   dispatch routes DELETE [''api'', ''products'', i] = Some (DeleteProduct, [(''id'', i)])"
  by (simp add: routes_def handles_method_def lower_literals)

lemma handle_list:
  "req_method req = GET \<Longrightarrow> req_path req = [''api'', ''products''] \<Longrightarrow>
   handle fmt uuid products req = (products, list_products products (req_query req))"
  by (simp add: handle_def dispatch_list)

lemma handle_search:
  "req_method req = GET \<Longrightarrow> req_path req = [''api'', ''products'', ''search''] \<Longrightarrow>
   handle fmt uuid products req =
     finish products (map_sum id (Pair products) (search_products products (req_query req)))"
  by (simp add: handle_def dispatch_search)

lemma handle_stats:
  "req_method req = GET \<Longrightarrow> req_path req = [''api'', ''products'', ''stats''] \<Longrightarrow>
   handle fmt uuid products req = (products, stats_products fmt products)"
  by (simp add: handle_def dispatch_stats)

lemma handle_get:
  "req_method req = GET \<Longrightarrow> req_path req = [''api'', ''products'', i] \<Longrightarrow> i \<noteq> [] \<Longrightarrow>
   toLowerCase i \<noteq> ''search'' \<Longrightarrow> toLowerCase i \<noteq> ''stats'' \<Longrightarrow>
   handle fmt uuid products req =
     finish products (map_sum id (Pair products) (get_product products i))"
  by (simp add: handle_def dispatch_get param_def)

lemma handle_post:
  "req_method req = POST \<Longrightarrow> req_path req = [''api'', ''products''] \<Longrightarrow>
   handle fmt uuid products req = route_create uuid products req"
  by (simp add: handle_def dispatch_post)

lemma handle_put:
  "req_method req = PUT \<Longrightarrow> req_path req = [''api'', ''products'', i] \<Longrightarrow> i \<noteq> [] \<Longrightarrow>
   handle fmt uuid products req = route_update products i req"
  by (simp add: handle_def dispatch_put param_def)

lemma handle_delete:
  "req_method req = DELETE \<Longrightarrow> req_path req = [''api'', ''products'', i] \<Longrightarrow> i \<noteq> [] \<Longrightarrow>
   handle fmt uuid products req = route_delete products i req"
  by (simp add: handle_def dispatch_delete param_def)

section \<open>Search without a term\<close>

text \<open>
  Claim C1. A \<open>GET /api/products/search\<close> whose query has no \<open>name\<close>, or an empty one,
  is meant to end in a \<open>ValidationError\<close> and the status 400. The handler reaches the
  call of \<open>next\<close> in that case, but \<open>next\<close> is not among its parameters: for every
  state and every such request the answer is the status 500 with the message of the
  \<open>ReferenceError\<close>, and the products are untouched. No product is returned.
\<close>

theorem search_without_name_answers_500:
  assumes "req_method req = GET" and "req_path req = [''api'', ''products'', ''search'']"
    and "map_of (req_query req) ''name'' = None \<or> map_of (req_query req) ''name'' = Some []"
  shows "handle fmt uuid products req =
           (products, Response 500 (ErrorReply ''next is not defined''))"
  using assms(3)
  by (auto simp add: handle_search[OF assms(1,2)] search_products_def finish_def error_handler_def)

theorem search_without_name_answers_500_witness:
  "\<forall>fmt uuid. handle fmt uuid seed
     \<lparr>req_method = GET, req_path = [''api'', ''products'', ''search''], req_query = [],
      req_api_key = None, req_body = []\<rparr> =
     (seed, Response 500 (ErrorReply ''next is not defined''))"
  using search_without_name_answers_500
    [of "\<lparr>req_method = GET, req_path = [''api'', ''products'', ''search''], req_query = [],
      req_api_key = None, req_body = []\<rparr>" _ _ seed]
  by simp

section \<open>Refused creations\<close>

lemma authenticate_None_iff: "authenticate k = None \<longleftrightarrow> k = Some ''mysecretapikey''"
  by (auto simp add: authenticate_def split: option.splits)

lemma authenticate_rejects:
  "k \<noteq> Some ''mysecretapikey'' \<Longrightarrow> authenticate k = Some unauthorized"
  by (auto simp add: authenticate_def split: option.splits)

lemma validateProduct_None_iff:
  "validateProduct body = None \<longleftrightarrow>
     (\<exists>s. field body ''name'' = JStr s \<and> s \<noteq> []) \<and> (\<exists>x. field body ''price'' = JNum x)"
  by (cases "field body ''name''"; cases "field body ''price''")
     (auto simp add: validateProduct_def Let_def)

lemma validateProduct_Some:
  "validateProduct body = Some err \<Longrightarrow>
     err = ValidationError ''Product name is required and must be a string'' \<or>
     err = ValidationError ''Product price is required and must be a number''"
  by (auto simp add: validateProduct_def Let_def split: if_splits)

lemma validateProduct_no_price:
  "field body ''name'' = JStr s \<Longrightarrow> s \<noteq> [] \<Longrightarrow> field body ''price'' = JUndefined \<Longrightarrow>
   validateProduct body =
     Some (ValidationError ''Product price is required and must be a number'')"
  by (simp add: validateProduct_def)

text \<open>
  Claim C3. For every \<open>POST /api/products\<close>, in every state: when the \<open>x-api-key\<close>
  header is absent or is not the shared secret, the answer is 401 and the products are
  unchanged; when the header is right and the body fails \<open>validateProduct\<close>, the answer
  is 400 with one of the two validation messages and the products are unchanged; a body
  with a proper name and no \<open>price\<close> is such a body. The last conjunct says which
  bodies pass: \<open>name\<close> a non-empty string and \<open>price\<close> a number.
\<close>

theorem create_refused_leaves_products:
  assumes "req_method req = POST" and "req_path req = [''api'', ''products'']"
  shows "(req_api_key req \<noteq> Some ''mysecretapikey'' \<longrightarrow>
            handle fmt uuid products req =
              (products, Response 401 (ErrorReply ''Unauthorized: Missing or invalid API key''))) \<and>
         (req_api_key req = Some ''mysecretapikey'' \<and> validateProduct (req_body req) \<noteq> None \<longrightarrow>
            handle fmt uuid products req =
              (products,
               Response 400 (ErrorReply ''Product name is required and must be a string'')) \<or>
            handle fmt uuid products req =
              (products,
               Response 400 (ErrorReply ''Product price is required and must be a number''))) \<and>
         (req_api_key req = Some ''mysecretapikey'' \<and>
          (\<exists>s. field (req_body req) ''name'' = JStr s \<and> s \<noteq> []) \<and>
          field (req_body req) ''price'' = JUndefined \<longrightarrow>
            handle fmt uuid products req =
              (products,
               Response 400 (ErrorReply ''Product price is required and must be a number''))) \<and>
         (validateProduct (req_body req) = None \<longleftrightarrow>
            (\<exists>s. field (req_body req) ''name'' = JStr s \<and> s \<noteq> []) \<and>
            (\<exists>x. field (req_body req) ''price'' = JNum x))"
proof (intro conjI impI)
  assume "req_api_key req \<noteq> Some ''mysecretapikey''"
  then show "handle fmt uuid products req =
      (products, Response 401 (ErrorReply ''Unauthorized: Missing or invalid API key''))"
    by (simp add: handle_post[OF assms] route_create_def authenticate_rejects unauthorized_def)
next
  assume a: "req_api_key req = Some ''mysecretapikey'' \<and> validateProduct (req_body req) \<noteq> None"
  then obtain err where e: "validateProduct (req_body req) = Some err" by auto
  from validateProduct_Some[OF e] a e
  show "handle fmt uuid products req =
          (products, Response 400 (ErrorReply ''Product name is required and must be a string'')) \<or>
        handle fmt uuid products req =
          (products, Response 400 (ErrorReply ''Product price is required and must be a number''))"
    by (auto simp add: handle_post[OF assms] route_create_def authenticate_None_iff[THEN iffD2]
        error_handler_def)
next
  assume a: "req_api_key req = Some ''mysecretapikey'' \<and>
          (\<exists>s. field (req_body req) ''name'' = JStr s \<and> s \<noteq> []) \<and>
          field (req_body req) ''price'' = JUndefined"
  then obtain s where s: "field (req_body req) ''name'' = JStr s" "s \<noteq> []" by auto
  from a validateProduct_no_price[OF s]
  show "handle fmt uuid products req =
          (products, Response 400 (ErrorReply ''Product price is required and must be a number''))"
    by (simp add: handle_post[OF assms] route_create_def authenticate_None_iff[THEN iffD2]
        error_handler_def)
next
  show "validateProduct (req_body req) = None \<longleftrightarrow>
            (\<exists>s. field (req_body req) ''name'' = JStr s \<and> s \<noteq> []) \<and>
            (\<exists>x. field (req_body req) ''price'' = JNum x)"
    by (rule validateProduct_None_iff)
qed

theorem create_refused_leaves_products_witness:
  "\<forall>fmt uuid.
     handle fmt uuid seed
       \<lparr>req_method = POST, req_path = [''api'', ''products''], req_query = [],
        req_api_key = None, req_body = [(''name'', JStr ''Kettle''), (''price'', JNum 30)]\<rparr> =
       (seed, Response 401 (ErrorReply ''Unauthorized: Missing or invalid API key'')) \<and>
     handle fmt uuid seed
       \<lparr>req_method = POST, req_path = [''api'', ''products''], req_query = [],
        req_api_key = Some ''mysecretapikey'', req_body = [(''name'', JStr ''Kettle'')]\<rparr> =
       (seed, Response 400 (ErrorReply ''Product price is required and must be a number''))"
  using create_refused_leaves_products
      [of "\<lparr>req_method = POST, req_path = [''api'', ''products''], req_query = [],
        req_api_key = None, req_body = [(''name'', JStr ''Kettle''), (''price'', JNum 30)]\<rparr>"
        _ _ seed]
    create_refused_leaves_products
      [of "\<lparr>req_method = POST, req_path = [''api'', ''products''], req_query = [],
        req_api_key = Some ''mysecretapikey'', req_body = [(''name'', JStr ''Kettle'')]\<rparr>"
        _ _ seed]
  by (simp add: field_def)

section \<open>Order of the routes\<close>

lemma match_three:
  assumes "match_path [Lit a, Lit b, Param x] p = Some ps"
  shows "\<exists>s1 s2 s3. p = [s1, s2, s3] \<and> toLowerCase s1 = toLowerCase a \<and>
           toLowerCase s2 = toLowerCase b \<and> s3 \<noteq> [] \<and> ps = [(x, s3)]"
proof (cases p)
  case Nil
  with assms show ?thesis by simp
next
  case (Cons s1 p1)
  note p = this
  show ?thesis
  proof (cases p1)
    case Nil
    with assms p show ?thesis by (simp split: if_splits)
  next
    case (Cons s2 p2)
    note p1 = this
    show ?thesis
    proof (cases p2)
      case Nil
      with assms p p1 show ?thesis by (simp split: if_splits)
    next
      case (Cons s3 p3)
      with assms p p1 show ?thesis
        by (cases p3) (auto split: if_splits)
    qed
  qed
qed

lemma get_product_route_only:
  assumes "dispatch routes m p = Some (GetProduct, params)"
  shows "match_path [Lit ''api'', Lit ''products'', Param ''id''] p = Some params \<and>
         match_path [Lit ''api'', Lit ''products'', Lit ''search''] p = None \<and>
         match_path [Lit ''api'', Lit ''products'', Lit ''stats''] p = None"
  using assms
  by (simp add: routes_def handles_method_def split: if_splits option.splits)

text \<open>
  Claim C7. The routes \<open>search\<close> and \<open>stats\<close> are registered before \<open>:id\<close>, and the
  first match wins: \<open>GET /api/products/search\<close> and \<open>GET /api/products/stats\<close> reach
  their own handlers although the pattern of \<open>:id\<close> matches both paths too, and
  whenever the by-id handler is chosen, for any method and path, its \<open>id\<close> is neither
  \<open>search\<close> nor \<open>stats\<close> (in any letter case, as Express compares literal segments).
  A request that no declared route matches is answered 404 with the message
  \<open>Route not found\<close> and leaves the products unchanged.
\<close>

theorem static_routes_precede_id:
  "dispatch routes GET [''api'', ''products'', ''search''] = Some (SearchProducts, []) \<and>
   dispatch routes GET [''api'', ''products'', ''stats''] = Some (StatsProducts, []) \<and>
   match_path [Lit ''api'', Lit ''products'', Param ''id''] [''api'', ''products'', ''search'']
     = Some [(''id'', ''search'')] \<and>
   match_path [Lit ''api'', Lit ''products'', Param ''id''] [''api'', ''products'', ''stats'']
     = Some [(''id'', ''stats'')] \<and>
   (dispatch routes m p = Some (GetProduct, params) \<longrightarrow>
      toLowerCase (param params ''id'') \<noteq> ''search'' \<and>
      toLowerCase (param params ''id'') \<noteq> ''stats'') \<and>
   (dispatch routes (req_method req) (req_path req) = None \<longrightarrow>
      handle fmt uuid products req = (products, Response 404 (ErrorReply ''Route not found'')))"
proof (intro conjI impI)
  assume d: "dispatch routes m p = Some (GetProduct, params)"
  from get_product_route_only[OF d] obtain s1 s2 s3 where
    p: "p = [s1, s2, s3]" "toLowerCase s1 = toLowerCase ''api''"
       "toLowerCase s2 = toLowerCase ''products''" "params = [(''id'', s3)]"
    and n: "match_path [Lit ''api'', Lit ''products'', Lit ''search''] p = None"
           "match_path [Lit ''api'', Lit ''products'', Lit ''stats''] p = None"
    using match_three by blast
  from n p show "toLowerCase (param params ''id'') \<noteq> ''search''"
    by (auto simp add: param_def toLowerCase_def lower_char_def split: if_splits)
  from n p show "toLowerCase (param params ''id'') \<noteq> ''stats''"
    by (auto simp add: param_def toLowerCase_def lower_char_def split: if_splits)
next
  assume "dispatch routes (req_method req) (req_path req) = None"
  then show "handle fmt uuid products req =
      (products, Response 404 (ErrorReply ''Route not found''))"
    by (simp add: handle_def error_handler_def)
qed (simp_all add: routes_def handles_method_def toLowerCase_def lower_char_def)

theorem static_routes_precede_id_witness:
  "\<forall>fmt uuid. dispatch routes GET [''api'', ''unknown''] = None \<and>
     handle fmt uuid seed
       \<lparr>req_method = GET, req_path = [''api'', ''unknown''], req_query = [],
        req_api_key = None, req_body = []\<rparr> =
       (seed, Response 404 (ErrorReply ''Route not found'')) \<and>
     dispatch routes GET [''api'', ''products'', ''2''] = Some (GetProduct, [(''id'', ''2'')]) \<and>
     toLowerCase (param [(''id'', ''2'')] ''id'') \<noteq> ''search''"
  using static_routes_precede_id[of GET "[''api'', ''products'', ''2'']" "[(''id'', ''2'')]"
      "\<lparr>req_method = GET, req_path = [''api'', ''unknown''], req_query = [],
        req_api_key = None, req_body = []\<rparr>" _ _ seed]
  by (simp add: routes_def handles_method_def toLowerCase_def lower_char_def)

section \<open>Identifiers that are not in the collection\<close>

lemma findIndex_None_iff: "findIndex P xs = None \<longleftrightarrow> (\<forall>x\<in>set xs. \<not> P x)"
  by (induction xs) auto

lemma findIndex_Some:
  "findIndex P xs = Some n \<Longrightarrow> n < length xs \<and> P (xs ! n) \<and> (\<forall>j<n. \<not> P (xs ! j))"
proof (induction xs arbitrary: n)
  case Nil
  then show ?case by simp
next
  case (Cons x xs)
  show ?case
  proof (cases "P x")
    case True
    with Cons.prems show ?thesis by simp
  next
    case False
    with Cons.prems obtain m where m: "findIndex P xs = Some m" "n = Suc m" by auto
    from Cons.IH[OF m(1)] False m(2) show ?thesis
      by (auto simp add: nth_Cons split: nat.splits)
  qed
qed

lemma no_id_find: "\<forall>p\<in>set products. field p ''id'' \<noteq> JStr i \<Longrightarrow> find (has_id i) products = None"
  by (simp add: find_None_iff has_id_def)

lemma no_id_findIndex:
  "\<forall>p\<in>set products. field p ''id'' \<noteq> JStr i \<Longrightarrow> findIndex (has_id i) products = None"
  by (simp add: findIndex_None_iff has_id_def)

lemma error_handler_not_found:
  "error_handler (not_found i) = Response 404 (ErrorReply (''Product with ID '' @ i @ '' not found''))"
  by (simp add: error_handler_def not_found_def)

lemma removed_id_absent:
  assumes d: "distinct (map (\<lambda>p. field p ''id'') products)"
    and n: "findIndex (has_id i) products = Some n"
  shows "\<forall>p\<in>set (take n products @ drop (Suc n) products). field p ''id'' \<noteq> JStr i"
proof -
  from findIndex_Some[OF n] have l: "n < length products" and h: "field (products ! n) ''id'' = JStr i"
    by (auto simp add: has_id_def)
  from l have "products = take n products @ products ! n # drop (Suc n) products"
    by (rule id_take_nth_drop)
  then have "distinct (map (\<lambda>p. field p ''id'') (take n products @ products ! n # drop (Suc n) products))"
    using d by simp
  with h show ?thesis by (auto simp add: image_iff)
qed

text \<open>
  Claim C5. When no product has the identifier \<open>i\<close>, GetByID, Update and Delete each
  pass on a \<open>NotFoundError\<close> whose message names \<open>i\<close>, and the client receives 404
  with that message and the products unchanged: for \<open>GET\<close> on every such path, for
  \<open>PUT\<close> and \<open>DELETE\<close> once the middleware before the handler has let the request
  through (the shared secret, and for \<open>PUT\<close> a valid body). This holds in every state.
  After a deletion of \<open>i\<close> from a collection whose identifiers are unique, \<open>i\<close> is
  absent, so GetByID answers 404 there as well.
\<close>

theorem absent_id_answers_404:
  "((\<forall>p\<in>set products. field p ''id'' \<noteq> JStr i) \<longrightarrow>
      get_product products i = Inl (NotFoundError (''Product with ID '' @ i @ '' not found'')) \<and>
      update_product products i body = Inl (NotFoundError (''Product with ID '' @ i @ '' not found'')) \<and>
      delete_product products i = Inl (NotFoundError (''Product with ID '' @ i @ '' not found'')) \<and>
      (req_path req = [''api'', ''products'', i] \<and> i \<noteq> [] \<longrightarrow>
         (req_method req = GET \<and> toLowerCase i \<noteq> ''search'' \<and> toLowerCase i \<noteq> ''stats'' \<longrightarrow>
            handle fmt uuid products req =
              (products, Response 404 (ErrorReply (''Product with ID '' @ i @ '' not found'')))) \<and>
         (req_method req = PUT \<and> req_api_key req = Some ''mysecretapikey'' \<and>
          validateProduct (req_body req) = None \<longrightarrow>
            handle fmt uuid products req =
              (products, Response 404 (ErrorReply (''Product with ID '' @ i @ '' not found'')))) \<and>
         (req_method req = DELETE \<and> req_api_key req = Some ''mysecretapikey'' \<longrightarrow>
            handle fmt uuid products req =
              (products, Response 404 (ErrorReply (''Product with ID '' @ i @ '' not found'')))))) \<and>
   (distinct (map (\<lambda>p. field p ''id'') before) \<and> delete_product before i = Inr (after, r) \<longrightarrow>
      (\<forall>p\<in>set after. field p ''id'' \<noteq> JStr i) \<and>
      get_product after i = Inl (NotFoundError (''Product with ID '' @ i @ '' not found'')))"
proof (intro conjI impI)
  assume a: "\<forall>p\<in>set products. field p ''id'' \<noteq> JStr i"
  show g: "get_product products i = Inl (NotFoundError (''Product with ID '' @ i @ '' not found''))"
    by (simp add: get_product_def no_id_find[OF a] not_found_def)
  show u: "update_product products i body = Inl (NotFoundError (''Product with ID '' @ i @ '' not found''))"
    by (simp add: update_product_def no_id_findIndex[OF a] not_found_def)
  show d: "delete_product products i = Inl (NotFoundError (''Product with ID '' @ i @ '' not found''))"
    by (simp add: delete_product_def no_id_findIndex[OF a] not_found_def)
  {
    assume p: "req_path req = [''api'', ''products'', i] \<and> i \<noteq> []"
    {
      assume "req_method req = GET \<and> toLowerCase i \<noteq> ''search'' \<and> toLowerCase i \<noteq> ''stats''"
      with p show "handle fmt uuid products req =
          (products, Response 404 (ErrorReply (''Product with ID '' @ i @ '' not found'')))"
        by (simp add: handle_get g finish_def error_handler_def)
    }
    {
      assume "req_method req = PUT \<and> req_api_key req = Some ''mysecretapikey'' \<and>
          validateProduct (req_body req) = None"
      with p show "handle fmt uuid products req =
          (products, Response 404 (ErrorReply (''Product with ID '' @ i @ '' not found'')))"
        by (simp add: handle_put route_update_def authenticate_None_iff[THEN iffD2]
            update_product_def no_id_findIndex[OF a] finish_def error_handler_not_found)
    }
    {
      assume "req_method req = DELETE \<and> req_api_key req = Some ''mysecretapikey''"
      with p show "handle fmt uuid products req =
          (products, Response 404 (ErrorReply (''Product with ID '' @ i @ '' not found'')))"
        by (simp add: handle_delete route_delete_def authenticate_None_iff[THEN iffD2]
            delete_product_def no_id_findIndex[OF a] finish_def error_handler_not_found)
    }
  }
next
  assume b: "distinct (map (\<lambda>p. field p ''id'') before) \<and> delete_product before i = Inr (after, r)"
  then obtain n where n: "findIndex (has_id i) before = Some n"
    and after: "after = take n before @ drop (Suc n) before"
    by (auto simp add: delete_product_def split: option.splits)
  from removed_id_absent[OF _ n] b after
  show c: "\<forall>p\<in>set after. field p ''id'' \<noteq> JStr i" by simp
  show "get_product after i = Inl (NotFoundError (''Product with ID '' @ i @ '' not found''))"
    by (simp add: get_product_def no_id_find[OF c] not_found_def)
qed

theorem absent_id_answers_404_witness:
  "\<forall>fmt uuid.
     handle fmt uuid seed
       \<lparr>req_method = GET, req_path = [''api'', ''products'', ''9''], req_query = [],
        req_api_key = None, req_body = []\<rparr> =
       (seed, Response 404 (ErrorReply ''Product with ID 9 not found'')) \<and>
     get_product (take 1 seed @ drop 2 seed) ''2'' =
       Inl (NotFoundError ''Product with ID 2 not found'')"
  using absent_id_answers_404
      [where products = seed and i = "''9''" and before = seed and after = seed
         and r = "Response 200 Greeting"
         and req = "\<lparr>req_method = GET, req_path = [''api'', ''products'', ''9''], req_query = [],
        req_api_key = None, req_body = []\<rparr>"]
    absent_id_answers_404
      [where products = seed and i = "''2''" and before = seed
         and after = "take 1 seed @ drop 2 seed"
         and r = "Response 200 (MessageReply ''Product successfully deleted'' (seed ! 1))"]
  by (simp add: seed_def field_def delete_product_def has_id_def toLowerCase_def lower_char_def)

section \<open>Update\<close>

lemma map_of_spread:
  "distinct (map fst b) \<Longrightarrow>
   map_of (spread a b) k = (case map_of b k of None \<Rightarrow> map_of a k | Some v \<Rightarrow> Some v)"
proof (induction b arbitrary: a)
  case Nil
  then show ?case by (simp add: spread_def)
next
  case (Cons kv b)
  obtain k' v' where kv: "kv = (k', v')" by (cases kv)
  from Cons.prems kv have d: "distinct (map fst b)" and nk: "k' \<notin> fst ` set b" by auto
  have s: "spread a ((k', v') # b) = spread (AList.update k' v' a) b"
    by (simp add: spread_def)
  from nk have none: "map_of b k' = None" by (simp add: map_of_eq_None_iff)
  show ?case
    using Cons.IH[OF d, of "AList.update k' v' a"] none
    by (auto simp add: s kv update_conv' split: option.splits)
qed

lemma field_spread:
  assumes "distinct (map fst b)"
  shows "field (spread a b) k = (if k \<in> fst ` set b then field b k else field a k)"
proof (cases "map_of b k")
  case None
  then have "k \<notin> fst ` set b" by (simp add: map_of_eq_None_iff)
  with None show ?thesis by (simp add: field_def map_of_spread[OF assms])
next
  case (Some v)
  then have "k \<in> fst ` set b" by (metis map_of_eq_None_iff option.distinct(1))
  with Some show ?thesis by (simp add: field_def map_of_spread[OF assms])
qed

lemma validated_has_name_price:
  "validateProduct body = None \<Longrightarrow> ''name'' \<in> fst ` set body \<and> ''price'' \<in> fst ` set body"
  by (auto simp add: validateProduct_None_iff field_def split: option.splits)
     (force dest: map_of_SomeD)+

text \<open>
  Claim C2, as the code has it. Take a \<open>PUT /api/products/:id\<close> with the shared
  secret and an \<open>id\<close> that some product has. A body that fails \<open>validateProduct\<close>
  (it must hold a \<open>name\<close> and a \<open>price\<close>) is answered 400 and changes nothing.
  Otherwise the first product with that \<open>id\<close> is replaced by the spread of the body
  over it and returned with the status 200; all other products stay. In the new record
  every property of the body has the body's value and every other property has its
  former value. The \<open>id\<close> is a property like any other: it keeps its value when the
  body has no \<open>id\<close>, and takes the body's when it has one. (A body is a JSON object, so
  it has no property twice.)
\<close>

theorem update_merges_validated_body:
  assumes "req_method req = PUT" and "req_path req = [''api'', ''products'', i]" and "i \<noteq> []"
    and "req_api_key req = Some ''mysecretapikey''"
    and "findIndex (has_id i) products = Some n"
    and "distinct (map fst (req_body req))"
  shows "(validateProduct (req_body req) \<noteq> None \<longrightarrow>
            handle fmt uuid products req =
              (products,
               Response 400 (ErrorReply ''Product name is required and must be a string'')) \<or>
            handle fmt uuid products req =
              (products,
               Response 400 (ErrorReply ''Product price is required and must be a number''))) \<and>
         (validateProduct (req_body req) = None \<longrightarrow>
            handle fmt uuid products req =
              (products[n := spread (products ! n) (req_body req)],
               Response 200 (MessageReply ''Product successfully updated''
                 (spread (products ! n) (req_body req))))) \<and>
         n < length products \<and>
         (\<forall>k. field (spread (products ! n) (req_body req)) k =
                (if k \<in> fst ` set (req_body req) then field (req_body req) k
                 else field (products ! n) k)) \<and>
         (''id'' \<notin> fst ` set (req_body req) \<longrightarrow>
            field (spread (products ! n) (req_body req)) ''id'' = field (products ! n) ''id'') \<and>
         (''id'' \<in> fst ` set (req_body req) \<longrightarrow>
            field (spread (products ! n) (req_body req)) ''id'' = field (req_body req) ''id'')"
proof -
  have r: "handle fmt uuid products req = route_update products i req"
    using assms(1-3) by (rule handle_put)
  have bad: "validateProduct (req_body req) \<noteq> None \<longrightarrow>
      handle fmt uuid products req =
        (products, Response 400 (ErrorReply ''Product name is required and must be a string'')) \<or>
      handle fmt uuid products req =
        (products, Response 400 (ErrorReply ''Product price is required and must be a number''))"
  proof
    assume "validateProduct (req_body req) \<noteq> None"
    then obtain err where e: "validateProduct (req_body req) = Some err" by auto
    from validateProduct_Some[OF e] e
    show "handle fmt uuid products req =
        (products, Response 400 (ErrorReply ''Product name is required and must be a string'')) \<or>
      handle fmt uuid products req =
        (products, Response 400 (ErrorReply ''Product price is required and must be a number''))"
      by (auto simp add: r route_update_def assms(4) authenticate_None_iff[THEN iffD2]
          error_handler_def)
  qed
  have good: "validateProduct (req_body req) = None \<longrightarrow>
      handle fmt uuid products req =
      (products[n := spread (products ! n) (req_body req)],
       Response 200 (MessageReply ''Product successfully updated''
         (spread (products ! n) (req_body req))))"
    by (simp add: r route_update_def assms(4,5) authenticate_None_iff[THEN iffD2]
        update_product_def finish_def Let_def)
  from findIndex_Some[OF assms(5)] have "n < length products" by simp
  with bad good show ?thesis by (simp add: field_spread[OF assms(6)])
qed

theorem update_merges_validated_body_witness:
  "\<forall>fmt uuid.
     handle fmt uuid seed
       \<lparr>req_method = PUT, req_path = [''api'', ''products'', ''3''], req_query = [],
        req_api_key = Some ''mysecretapikey'',
        req_body = [(''name'', JStr ''Coffee Maker''), (''price'', JNum 45)]\<rparr> =
       ([seed ! 0, seed ! 1,
         [(''id'', JStr ''3''), (''name'', JStr ''Coffee Maker''),
          (''description'', JStr ''Programmable coffee maker with timer''),
          (''price'', JNum 45), (''category'', JStr ''kitchen''), (''inStock'', JBool False)]],
        Response 200 (MessageReply ''Product successfully updated''
         [(''id'', JStr ''3''), (''name'', JStr ''Coffee Maker''),
          (''description'', JStr ''Programmable coffee maker with timer''),
          (''price'', JNum 45), (''category'', JStr ''kitchen''), (''inStock'', JBool False)]))"
  using update_merges_validated_body
      [where products = seed and i = "''3''" and n = 2
         and req = "\<lparr>req_method = PUT, req_path = [''api'', ''products'', ''3''], req_query = [],
        req_api_key = Some ''mysecretapikey'',
        req_body = [(''name'', JStr ''Coffee Maker''), (''price'', JNum 45)]\<rparr>"]
  by (simp add: validateProduct_def field_def has_id_def seed_def spread_def)

text \<open>
  The claim as stated fails for a body that holds an \<open>id\<close>: on the seed data,
  updating product \<open>1\<close> with such a body leaves two products with the identifier \<open>2\<close>.
\<close>

theorem update_reassigns_id_counterexample:
  "route_update seed ''1''
     \<lparr>req_method = PUT, req_path = [''api'', ''products'', ''1''], req_query = [],
       req_api_key = Some ''mysecretapikey'',
       req_body = [(''name'', JStr ''Laptop''), (''price'', JNum 1200), (''id'', JStr ''2'')]\<rparr> =
     ([[(''id'', JStr ''2''), (''name'', JStr ''Laptop''),
        (''description'', JStr ''High-performance laptop with 16GB RAM''),
        (''price'', JNum 1200), (''category'', JStr ''electronics''), (''inStock'', JBool True)],
       seed ! 1, seed ! 2],
      Response 200 (MessageReply ''Product successfully updated''
       [(''id'', JStr ''2''), (''name'', JStr ''Laptop''),
        (''description'', JStr ''High-performance laptop with 16GB RAM''),
        (''price'', JNum 1200), (''category'', JStr ''electronics''), (''inStock'', JBool True)])) \<and>
   field (seed ! 0) ''id'' = JStr ''1''"
  by (simp add: route_update_def authenticate_def validateProduct_def field_def
      update_product_def has_id_def seed_def finish_def spread_def Let_def)

section \<open>Create\<close>

lemma find_append_fresh:
  "\<forall>p\<in>set products. \<not> P p \<Longrightarrow> P r \<Longrightarrow> find P (products @ [r]) = Some r"
  by (induction products) auto

lemma find_append_present:
  "\<exists>p\<in>set products. P p \<Longrightarrow> find P (products @ rs) = find P products"
  by (induction products) auto

text \<open>
  Claim C6, as the code has it. A \<open>POST /api/products\<close> with the shared secret and a
  valid body appends one record to the collection, leaving the others and their order
  as they were, and returns that record with the status 201. The record's \<open>id\<close> is the
  identifier \<open>uuidv4()\<close> returned, whatever it is: the handler does not look whether
  it is in use. When it is not, it differs from the \<open>id\<close> of every product already
  there and a GetByID for it finds the new record; when it is, the new record shares
  it with an older one, which GetByID goes on returning. \<open>inStock\<close> is \<open>true\<close> when
  the body has no such property; \<open>name\<close>, \<open>description\<close>, \<open>price\<close> and \<open>category\<close> are
  the body's.
\<close>

theorem create_appends_new_product:
  assumes "req_method req = POST" and "req_path req = [''api'', ''products'']"
    and "req_api_key req = Some ''mysecretapikey''"
    and "validateProduct (req_body req) = None"
  shows "handle fmt uuid products req =
           (products @ [new_product uuid (req_body req)],
            Response 201 (MessageReply ''Product successfully added''
              (new_product uuid (req_body req)))) \<and>
         field (new_product uuid (req_body req)) ''id'' = JStr uuid \<and>
         ((\<forall>p\<in>set products. field p ''id'' \<noteq> JStr uuid) \<longrightarrow>
            (\<forall>p\<in>set products. field p ''id'' \<noteq> field (new_product uuid (req_body req)) ''id'') \<and>
            get_product (products @ [new_product uuid (req_body req)]) uuid =
              Inr (Response 200 (DataReply (new_product uuid (req_body req))))) \<and>
         ((\<exists>p\<in>set products. field p ''id'' = JStr uuid) \<longrightarrow>
            (\<exists>p\<in>set products. field p ''id'' = field (new_product uuid (req_body req)) ''id'') \<and>
            get_product (products @ [new_product uuid (req_body req)]) uuid =
              get_product products uuid) \<and>
         (map_of (req_body req) ''inStock'' = None \<longrightarrow>
            field (new_product uuid (req_body req)) ''inStock'' = JBool True) \<and>
         field (new_product uuid (req_body req)) ''name'' = field (req_body req) ''name'' \<and>
         field (new_product uuid (req_body req)) ''description'' =
           field (req_body req) ''description'' \<and>
         field (new_product uuid (req_body req)) ''price'' = field (req_body req) ''price'' \<and>
         field (new_product uuid (req_body req)) ''category'' = field (req_body req) ''category''"
proof -
  let ?new = "new_product uuid (req_body req)"
  have h: "handle fmt uuid products req =
      (products @ [?new], Response 201 (MessageReply ''Product successfully added'' ?new))"
    by (simp add: handle_post[OF assms(1,2)] route_create_def assms(3,4)
        authenticate_None_iff[THEN iffD2] create_product_def Let_def)
  have i: "field ?new ''id'' = JStr uuid"
    by (simp add: new_product_def field_def)
  have fresh: "(\<forall>p\<in>set products. field p ''id'' \<noteq> JStr uuid) \<longrightarrow>
      (\<forall>p\<in>set products. field p ''id'' \<noteq> field ?new ''id'') \<and>
      get_product (products @ [?new]) uuid = Inr (Response 200 (DataReply ?new))"
    using i by (simp add: get_product_def find_append_fresh has_id_def)
  have used: "(\<exists>p\<in>set products. field p ''id'' = JStr uuid) \<longrightarrow>
      (\<exists>p\<in>set products. field p ''id'' = field ?new ''id'') \<and>
      get_product (products @ [?new]) uuid = get_product products uuid"
  proof
    assume u: "\<exists>p\<in>set products. field p ''id'' = JStr uuid"
    then have "\<exists>p\<in>set products. has_id uuid p" by (simp add: has_id_def)
    then have "find (has_id uuid) (products @ [?new]) = find (has_id uuid) products"
      by (rule find_append_present)
    with u i show "(\<exists>p\<in>set products. field p ''id'' = field ?new ''id'') \<and>
      get_product (products @ [?new]) uuid = get_product products uuid"
      by (simp add: get_product_def)
  qed
  have s: "map_of (req_body req) ''inStock'' = None \<longrightarrow> field ?new ''inStock'' = JBool True"
    by (simp add: new_product_def field_def)
  have f: "field ?new ''name'' = field (req_body req) ''name''"
    "field ?new ''description'' = field (req_body req) ''description''"
    "field ?new ''price'' = field (req_body req) ''price''"
    "field ?new ''category'' = field (req_body req) ''category''"
    by (simp_all add: new_product_def field_def)
  from h i fresh used s f show ?thesis by blast
qed

theorem create_appends_new_product_witness:
  "\<forall>fmt.
     handle fmt ''6ec0bd7f-11c0-43da-975e-2a8ad9ebae0b'' seed
       \<lparr>req_method = POST, req_path = [''api'', ''products''], req_query = [],
        req_api_key = Some ''mysecretapikey'',
        req_body = [(''name'', JStr ''Kettle''), (''price'', JNum 30)]\<rparr> =
       (seed @
        [[(''id'', JStr ''6ec0bd7f-11c0-43da-975e-2a8ad9ebae0b''), (''name'', JStr ''Kettle''),
          (''description'', JUndefined), (''price'', JNum 30), (''category'', JUndefined),
          (''inStock'', JBool True)]],
        Response 201 (MessageReply ''Product successfully added''
         [(''id'', JStr ''6ec0bd7f-11c0-43da-975e-2a8ad9ebae0b''), (''name'', JStr ''Kettle''),
          (''description'', JUndefined), (''price'', JNum 30), (''category'', JUndefined),
          (''inStock'', JBool True)])) \<and>
     get_product
       (seed @
        [[(''id'', JStr ''6ec0bd7f-11c0-43da-975e-2a8ad9ebae0b''), (''name'', JStr ''Kettle''),
          (''description'', JUndefined), (''price'', JNum 30), (''category'', JUndefined),
          (''inStock'', JBool True)]])
       ''6ec0bd7f-11c0-43da-975e-2a8ad9ebae0b'' =
     Inr (Response 200 (DataReply
        [(''id'', JStr ''6ec0bd7f-11c0-43da-975e-2a8ad9ebae0b''), (''name'', JStr ''Kettle''),
          (''description'', JUndefined), (''price'', JNum 30), (''category'', JUndefined),
          (''inStock'', JBool True)]))"
proof (intro allI)
  fix fmt :: "real \<Rightarrow> string"
  let ?u = "''6ec0bd7f-11c0-43da-975e-2a8ad9ebae0b''"
  let ?r = "\<lparr>req_method = POST, req_path = [''api'', ''products''], req_query = [],
        req_api_key = Some ''mysecretapikey'',
        req_body = [(''name'', JStr ''Kettle''), (''price'', JNum 30)]\<rparr>"
  let ?new = "[(''id'', JStr ?u), (''name'', JStr ''Kettle''),
          (''description'', JUndefined), (''price'', JNum 30), (''category'', JUndefined),
          (''inStock'', JBool True)]"
  have v: "validateProduct (req_body ?r) = None"
    by (simp add: validateProduct_def field_def)
  have n: "new_product ?u (req_body ?r) = ?new"
    by (simp add: new_product_def field_def)
  have f: "\<forall>p\<in>set seed. field p ''id'' \<noteq> JStr ?u"
    by (simp add: seed_def field_def)
  have m: "req_method ?r = POST" "req_path ?r = [''api'', ''products'']"
    "req_api_key ?r = Some ''mysecretapikey''"
    by simp_all
  note t = create_appends_new_product[where req = ?r and products = seed and fmt = fmt
      and uuid = ?u, OF m v, unfolded n]
  have "handle fmt ?u seed ?r =
      (seed @ [?new], Response 201 (MessageReply ''Product successfully added'' ?new))"
    by (rule t[THEN conjunct1])
  moreover have "get_product (seed @ [?new]) ?u = Inr (Response 200 (DataReply ?new))"
    by (rule t[THEN conjunct2, THEN conjunct2, THEN conjunct1, THEN mp, OF f, THEN conjunct2])
  ultimately show "handle fmt ?u seed ?r =
      (seed @ [?new], Response 201 (MessageReply ''Product successfully added'' ?new)) \<and>
     get_product (seed @ [?new]) ?u = Inr (Response 200 (DataReply ?new))"
    by simp
qed

text \<open>
  The claim as stated, a fresh id for every creation, fails when the generator returns
  an identifier that is in use: after an update has given product \<open>1\<close> that identifier
  (an update accepts an \<open>id\<close> in its body), the creation appends a second record with
  it.
\<close>

theorem create_repeats_id_counterexample:
  "route_create ''6ec0bd7f-11c0-43da-975e-2a8ad9ebae0b''
     (fst (route_update seed ''1''
        \<lparr>req_method = PUT, req_path = [''api'', ''products'', ''1''], req_query = [],
         req_api_key = Some ''mysecretapikey'',
         req_body = [(''name'', JStr ''Laptop''), (''price'', JNum 1200),
                     (''id'', JStr ''6ec0bd7f-11c0-43da-975e-2a8ad9ebae0b'')]\<rparr>))
     \<lparr>req_method = POST, req_path = [''api'', ''products''], req_query = [],
      req_api_key = Some ''mysecretapikey'',
      req_body = [(''name'', JStr ''Kettle''), (''price'', JNum 30)]\<rparr> =
   ([[(''id'', JStr ''6ec0bd7f-11c0-43da-975e-2a8ad9ebae0b''), (''name'', JStr ''Laptop''),
      (''description'', JStr ''High-performance laptop with 16GB RAM''),
      (''price'', JNum 1200), (''category'', JStr ''electronics''), (''inStock'', JBool True)],
     seed ! 1, seed ! 2,
     [(''id'', JStr ''6ec0bd7f-11c0-43da-975e-2a8ad9ebae0b''), (''name'', JStr ''Kettle''),
      (''description'', JUndefined), (''price'', JNum 30), (''category'', JUndefined),
      (''inStock'', JBool True)]],
    Response 201 (MessageReply ''Product successfully added''
     [(''id'', JStr ''6ec0bd7f-11c0-43da-975e-2a8ad9ebae0b''), (''name'', JStr ''Kettle''),
      (''description'', JUndefined), (''price'', JNum 30), (''category'', JUndefined),
      (''inStock'', JBool True)]))"
proof -
  have u: "fst (route_update seed ''1''
        \<lparr>req_method = PUT, req_path = [''api'', ''products'', ''1''], req_query = [],
         req_api_key = Some ''mysecretapikey'',
         req_body = [(''name'', JStr ''Laptop''), (''price'', JNum 1200),
                     (''id'', JStr ''6ec0bd7f-11c0-43da-975e-2a8ad9ebae0b'')]\<rparr>) =
      [[(''id'', JStr ''6ec0bd7f-11c0-43da-975e-2a8ad9ebae0b''), (''name'', JStr ''Laptop''),
        (''description'', JStr ''High-performance laptop with 16GB RAM''),
        (''price'', JNum 1200), (''category'', JStr ''electronics''), (''inStock'', JBool True)],
       seed ! 1, seed ! 2]"
    by (simp add: route_update_def authenticate_def validateProduct_def field_def
        update_product_def has_id_def seed_def finish_def spread_def Let_def)
  show ?thesis
    by (simp add: u route_create_def authenticate_def validateProduct_def field_def
        create_product_def new_product_def Let_def)
qed

section \<open>List\<close>

lemma filter_upt_range:
  "filter (\<lambda>i. a \<le> i \<and> i < b) [0..<n] = [a..<min b n]"
proof (induction n)
  case 0
  then show ?case by simp
next
  case (Suc n)
  show ?case
  proof (cases "a \<le> n \<and> n < b")
    case True
    then have "min b n = n" and "min b (Suc n) = Suc n" by simp_all
    with True Suc show ?thesis by simp
  next
    case False
    then have "n < a \<or> b \<le> n" by auto
    then have "[a..<min b n] = [a..<min b (Suc n)]" by (auto simp add: min_def)
    with False Suc show ?thesis by simp
  qed
qed

lemma take_drop_nths: "take n (drop k xs) = map (\<lambda>i. xs ! i) [k..<min (k + n) (length xs)]"
proof (rule nth_equalityI)
  show "length (take n (drop k xs)) = length (map (\<lambda>i. xs ! i) [k..<min (k + n) (length xs)])"
    by (auto simp add: min_def)
next
  fix i
  assume "i < length (take n (drop k xs))"
  then show "take n (drop k xs) ! i = map (\<lambda>i. xs ! i) [k..<min (k + n) (length xs)] ! i"
    by (simp add: min_def split: if_splits)
qed

lemma index_range_nonneg:
  assumes "0 \<le> a" and "0 \<le> b"
  shows "index_range xs a b = take (nat b - nat a) (drop (nat a) xs)"
proof -
  from assms have "(\<lambda>i. a \<le> int i \<and> int i < b) = (\<lambda>i. nat a \<le> i \<and> i < nat b)"
    by (auto simp add: fun_eq_iff)
  then have "index_range xs a b = map (\<lambda>i. xs ! i) [nat a..<min (nat b) (length xs)]"
    by (simp add: index_range_def filter_upt_range)
  also have "\<dots> = take (nat b - nat a) (drop (nat a) xs)"
    by (cases "nat a \<le> nat b") (auto simp add: take_drop_nths min_def)
  finally show ?thesis .
qed

lemma to_double_safe: "is_safe_integer n \<Longrightarrow> to_double n = Num n"
  by (simp add: to_double_def)

lemma js_sub_Num: "js_sub (Num a) (Num b) = to_double (a - b)"
  by (simp add: js_sub_def)

lemma slice_NaN: "slice xs NaN NaN = []"
  by (simp add: slice_def slice_index_def clamp_index_def)

lemma slice_relative:
  "slice xs (Num a) (Num b) =
     index_range xs (relative_bound (length xs) a) (relative_bound (length xs) b)"
proof -
  let ?A = "nat (relative_bound (length xs) a)" and ?B = "nat (relative_bound (length xs) b)"
  have n: "0 \<le> relative_bound (length xs) a" "0 \<le> relative_bound (length xs) b"
    by (simp_all add: relative_bound_def)
  have k: "clamp_index (length xs) a = min ?A (length xs)"
    "clamp_index (length xs) b = min ?B (length xs)"
    by (auto simp add: clamp_index_def relative_bound_def)
  have "take (min ?B (length xs) - min ?A (length xs)) (drop (min ?A (length xs)) xs) =
        take (?B - ?A) (drop ?A xs)"
    by (cases "?A \<le> length xs"; cases "?B \<le> length xs") (auto simp add: min_def)
  then show ?thesis
    by (simp add: slice_def slice_index_def Let_def k index_range_nonneg[OF n])
qed

lemma filtered_of_cases:
  "(map_of q ''category'' = None \<or> map_of q ''category'' = Some [] \<longrightarrow>
      filtered_of products q = products) \<and>
   (\<forall>c. map_of q ''category'' = Some c \<and> c \<noteq> [] \<longrightarrow>
      filtered_of products q = filter (\<lambda>p. field p ''category'' = JStr c) products)"
  by (auto simp add: filtered_of_def)

lemma parseInt_defaults: "parseInt ''1'' = Num 1" "parseInt ''3'' = Num 3"
  by (simp_all add: parseInt_def is_ws_def digit_of_def digits_value_def to_double_def
      is_safe_integer_def)

text \<open>
  Claim C4, as the code has it. For a \<open>GET /api/products\<close> whose \<open>page\<close> and
  \<open>limit\<close> parse to integers such that \<open>page-1\<close> and both bounds,
  \<open>(page-1)*limit\<close> and \<open>(page-1)*limit+limit\<close>, are safe integers (below \<open>2^53\<close>
  in magnitude, so that the arithmetic is exact), the answer is 200 and its data are
  the filtered records at the indices from the first bound up to, not including, the
  second, in insertion order, where a negative bound counts from the end of the list,
  as \<open>slice\<close> reads it, and an index the list does not have selects nothing. When
  both bounds are non-negative (so for every \<open>page \<ge> 1\<close> and \<open>limit \<ge> 0\<close> in that
  range) these are the indices of the interval as it stands. \<open>total\<close> is the length
  of the filtered list and \<open>page\<close> the parsed page. The filtered list is all products
  when \<open>category\<close> is absent or empty, and otherwise the products whose \<open>category\<close>
  is that string. A missing \<open>page\<close> is 1 and a missing \<open>limit\<close> is 3. The products
  are not changed.
\<close>

theorem list_products_pages:
  assumes "req_method req = GET" and "req_path req = [''api'', ''products'']"
    and "page_of (req_query req) = Num page" and "limit_of (req_query req) = Num limit"
    and "is_safe_integer (page - 1)" and "is_safe_integer ((page - 1) * limit)"
    and "is_safe_integer ((page - 1) * limit + limit)"
  shows "handle fmt uuid products req =
           (products,
            Response 200
              (ListReply (Num page) (length (filtered_of products (req_query req)))
                 (index_range (filtered_of products (req_query req))
                    (relative_bound (length (filtered_of products (req_query req)))
                       ((page - 1) * limit))
                    (relative_bound (length (filtered_of products (req_query req)))
                       ((page - 1) * limit + limit))))) \<and>
         (0 \<le> (page - 1) * limit \<and> 0 \<le> (page - 1) * limit + limit \<longrightarrow>
            handle fmt uuid products req =
              (products,
               Response 200
                 (ListReply (Num page) (length (filtered_of products (req_query req)))
                    (index_range (filtered_of products (req_query req))
                       ((page - 1) * limit) ((page - 1) * limit + limit))))) \<and>
         (map_of (req_query req) ''category'' = None \<or>
          map_of (req_query req) ''category'' = Some [] \<longrightarrow>
            filtered_of products (req_query req) = products) \<and>
         (\<forall>c. map_of (req_query req) ''category'' = Some c \<and> c \<noteq> [] \<longrightarrow>
            filtered_of products (req_query req) =
              filter (\<lambda>p. field p ''category'' = JStr c) products) \<and>
         (map_of (req_query req) ''page'' = None \<longrightarrow> page = 1) \<and>
         (map_of (req_query req) ''limit'' = None \<longrightarrow> limit = 3)"
proof -
  let ?f = "filtered_of products (req_query req)"
  have s: "start_of (req_query req) = Num ((page - 1) * limit)"
    by (simp add: start_of_def assms(3,4) js_sub_Num to_double_safe[OF assms(5)]
        to_double_safe[OF assms(6)])
  have e: "end_of (req_query req) = Num ((page - 1) * limit + limit)"
    by (simp add: end_of_def s assms(4) to_double_safe[OF assms(7)])
  have h: "handle fmt uuid products req =
      (products,
       Response 200
         (ListReply (Num page) (length ?f)
            (index_range ?f (relative_bound (length ?f) ((page - 1) * limit))
               (relative_bound (length ?f) ((page - 1) * limit + limit)))))"
    by (simp add: handle_list[OF assms(1,2)] list_products_def Let_def assms(3) s e
        slice_relative)
  have r: "0 \<le> (page - 1) * limit \<and> 0 \<le> (page - 1) * limit + limit \<longrightarrow>
      relative_bound (length ?f) ((page - 1) * limit) = (page - 1) * limit \<and>
      relative_bound (length ?f) ((page - 1) * limit + limit) = (page - 1) * limit + limit"
    by (simp add: relative_bound_def)
  have p: "map_of (req_query req) ''page'' = None \<longrightarrow> page = 1"
    using assms(3) by (auto simp add: page_of_def parseInt_defaults)
  have l: "map_of (req_query req) ''limit'' = None \<longrightarrow> limit = 3"
    using assms(4) by (auto simp add: limit_of_def parseInt_defaults)
  from h r have h': "0 \<le> (page - 1) * limit \<and> 0 \<le> (page - 1) * limit + limit \<longrightarrow>
      handle fmt uuid products req =
        (products,
         Response 200
           (ListReply (Num page) (length ?f)
              (index_range ?f ((page - 1) * limit) ((page - 1) * limit + limit))))"
    by simp
  from h h' p l filtered_of_cases[of "req_query req" products] show ?thesis by blast
qed

lemma seed_electronics:
  "filtered_of seed [(''category'', ''electronics''), (''page'', ''2''), (''limit'', ''1'')] =
     [seed ! 0, seed ! 1]"
  by (simp add: filtered_of_def seed_def field_def)

theorem list_products_pages_witness:
  "\<forall>fmt uuid.
     handle fmt uuid seed
       \<lparr>req_method = GET, req_path = [''api'', ''products''], req_query = [],
        req_api_key = None, req_body = []\<rparr> =
       (seed, Response 200 (ListReply (Num 1) 3 seed)) \<and>
     handle fmt uuid seed
       \<lparr>req_method = GET, req_path = [''api'', ''products''],
        req_query = [(''category'', ''electronics''), (''page'', ''2''), (''limit'', ''1'')],
        req_api_key = None, req_body = []\<rparr> =
       (seed, Response 200 (ListReply (Num 2) 2 [seed ! 1]))"
proof (intro allI conjI)
  fix fmt :: "real \<Rightarrow> string" and uuid :: string
  let ?r = "\<lparr>req_method = GET, req_path = [''api'', ''products''], req_query = [],
        req_api_key = None, req_body = []\<rparr>"
  have p: "page_of (req_query ?r) = Num 1" and l: "limit_of (req_query ?r) = Num 3"
    by (simp_all add: page_of_def limit_of_def parseInt_defaults)
  have i: "is_safe_integer (1 - 1)" "is_safe_integer ((1 - 1) * 3)"
    "is_safe_integer ((1 - 1) * 3 + 3)"
    by (simp_all add: is_safe_integer_def)
  have "handle fmt uuid seed ?r =
      (seed, Response 200 (ListReply (Num 1) (length (filtered_of seed (req_query ?r)))
         (index_range (filtered_of seed (req_query ?r)) ((1 - 1) * 3) ((1 - 1) * 3 + 3))))"
    using list_products_pages[where req = ?r and page = 1 and limit = 3 and fmt = fmt
        and uuid = uuid and products = seed, OF _ _ p l i, THEN conjunct2, THEN conjunct1]
    by simp
  moreover have "filtered_of seed (req_query ?r) = seed"
    by (simp add: filtered_of_def)
  moreover have "index_range seed ((1 - 1) * 3) ((1 - 1) * 3 + 3) = seed"
    by (simp add: index_range_def seed_def)
  moreover have "length seed = 3"
    by (simp add: seed_def)
  ultimately show "handle fmt uuid seed ?r = (seed, Response 200 (ListReply (Num 1) 3 seed))"
    by simp
next
  fix fmt :: "real \<Rightarrow> string" and uuid :: string
  let ?q = "[(''category'', ''electronics''), (''page'', ''2''), (''limit'', ''1'')]"
  let ?r = "\<lparr>req_method = GET, req_path = [''api'', ''products''], req_query = ?q,
        req_api_key = None, req_body = []\<rparr>"
  have p: "page_of (req_query ?r) = Num 2" and l: "limit_of (req_query ?r) = Num 1"
    by (simp_all add: page_of_def limit_of_def parseInt_def is_ws_def digit_of_def
        digits_value_def to_double_def is_safe_integer_def)
  have i: "is_safe_integer (2 - 1)" "is_safe_integer ((2 - 1) * 1)"
    "is_safe_integer ((2 - 1) * 1 + 1)"
    by (simp_all add: is_safe_integer_def)
  have "handle fmt uuid seed ?r =
      (seed, Response 200 (ListReply (Num 2) (length (filtered_of seed (req_query ?r)))
         (index_range (filtered_of seed (req_query ?r)) ((2 - 1) * 1) ((2 - 1) * 1 + 1))))"
    using list_products_pages[where req = ?r and page = 2 and limit = 1 and fmt = fmt
        and uuid = uuid and products = seed, OF _ _ p l i, THEN conjunct2, THEN conjunct1]
    by simp
  moreover have "index_range [seed ! 0, seed ! 1] ((2 - 1) * 1) ((2 - 1) * 1 + 1) = [seed ! 1]"
    by (simp add: index_range_def)
  ultimately show "handle fmt uuid seed ?r = (seed, Response 200 (ListReply (Num 2) 2 [seed ! 1]))"
    by (simp add: seed_electronics)
qed

text \<open>
  With a negative bound the data are not the records of the index interval:
  \<open>slice\<close> counts a negative bound from the end of the list. For \<open>page=-1\<close> and
  \<open>limit=1\<close> the interval from -2 to -1 holds no index, and the answer holds the
  second product.
\<close>

theorem list_negative_page_counterexample:
  "list_products seed [(''page'', ''-1''), (''limit'', ''1'')] =
     Response 200 (ListReply (Num (- 1)) 3 [seed ! 1]) \<and>
   index_range seed ((- 1 - 1) * 1) ((- 1 - 1) * 1 + 1) = []"
proof -
  let ?q = "[(''page'', ''-1''), (''limit'', ''1'')]"
  have p: "page_of ?q = Num (- 1)" and l: "limit_of ?q = Num 1"
    by (simp_all add: page_of_def limit_of_def parseInt_def is_ws_def digit_of_def
        digits_value_def to_double_def is_safe_integer_def)
  have s: "start_of ?q = Num (- 2)"
    by (simp add: start_of_def p l js_sub_Num to_double_def is_safe_integer_def)
  have e: "end_of ?q = Num (- 1)"
    by (simp add: end_of_def s l to_double_def is_safe_integer_def)
  have f: "filtered_of seed ?q = seed" by (simp add: filtered_of_def)
  have "slice seed (Num (- 2)) (Num (- 1)) = [seed ! 1]"
    by (simp add: slice_def slice_index_def clamp_index_def seed_def)
  moreover have "length seed = 3" by (simp add: seed_def)
  moreover have "index_range seed ((- 1 - 1) * 1) ((- 1 - 1) * 1 + 1) = []"
    by (simp add: index_range_def seed_def)
  ultimately show ?thesis
    by (simp add: list_products_def Let_def p s e f)
qed

lemma js_mul_NaN: "js_mul x NaN = NaN" "js_mul NaN y = NaN"
  by (cases x) simp_all

text \<open>
  Claim C10. When the \<open>page\<close> or the \<open>limit\<close> of a \<open>GET /api/products\<close> is a string
  that \<open>parseInt\<close> turns into \<open>NaN\<close>, both bounds of the slice are \<open>NaN\<close>, and the
  handler still answers 200 with an empty data array, \<open>total\<close> being the length of
  the filtered list; the products are unchanged.
\<close>

theorem list_unparsable_page_or_limit:
  assumes "req_method req = GET" and "req_path req = [''api'', ''products'']"
    and "(\<exists>s. map_of (req_query req) ''page'' = Some s \<and> parseInt s = NaN) \<or>
         (\<exists>s. map_of (req_query req) ''limit'' = Some s \<and> parseInt s = NaN)"
  shows "(page_of (req_query req) = NaN \<or> limit_of (req_query req) = NaN) \<and>
         start_of (req_query req) = NaN \<and> end_of (req_query req) = NaN \<and>
         handle fmt uuid products req =
           (products,
            Response 200
              (ListReply (page_of (req_query req))
                 (length (filtered_of products (req_query req))) []))"
proof -
  from assms(3) have n: "page_of (req_query req) = NaN \<or> limit_of (req_query req) = NaN"
    by (auto simp add: page_of_def limit_of_def)
  then have s: "start_of (req_query req) = NaN"
    by (auto simp add: start_of_def js_mul_NaN js_sub_def)
  then have e: "end_of (req_query req) = NaN"
    by (simp add: end_of_def)
  from n s e show ?thesis
    by (simp add: handle_list[OF assms(1,2)] list_products_def Let_def slice_NaN)
qed

theorem list_unparsable_page_or_limit_witness:
  "\<forall>fmt uuid.
     parseInt ''abc'' = NaN \<and>
     handle fmt uuid seed
       \<lparr>req_method = GET, req_path = [''api'', ''products''],
        req_query = [(''page'', ''abc''), (''category'', ''kitchen'')],
        req_api_key = None, req_body = []\<rparr> =
       (seed, Response 200 (ListReply NaN 1 [])) \<and>
     handle fmt uuid seed
       \<lparr>req_method = GET, req_path = [''api'', ''products''],
        req_query = [(''page'', ''2''), (''limit'', ''many'')],
        req_api_key = None, req_body = []\<rparr> =
       (seed, Response 200 (ListReply (Num 2) 3 []))"
  using list_unparsable_page_or_limit
      [where products = seed
         and req = "\<lparr>req_method = GET, req_path = [''api'', ''products''],
        req_query = [(''page'', ''abc''), (''category'', ''kitchen'')],
        req_api_key = None, req_body = []\<rparr>"]
    list_unparsable_page_or_limit
      [where products = seed
         and req = "\<lparr>req_method = GET, req_path = [''api'', ''products''],
        req_query = [(''page'', ''2''), (''limit'', ''many'')],
        req_api_key = None, req_body = []\<rparr>"]
  by (simp add: page_of_def limit_of_def filtered_of_def
      parseInt_def is_ws_def digit_of_def digits_value_def seed_def field_def
      to_double_def is_safe_integer_def)

section \<open>Search with a term\<close>

lemma str_includes_sublist: "str_includes s t \<longleftrightarrow> sublist t s"
  by (induction s) (auto simp add: sublist_Cons_right)

lemma sublist_map_iff:
  "sublist ys (map f xs) \<longleftrightarrow> (\<exists>u. sublist u xs \<and> map f u = ys)"
proof
  assume "sublist ys (map f xs)"
  then obtain ps ss where "map f xs = ps @ ys @ ss" by (auto simp add: sublist_def)
  then obtain a vs where a: "xs = a @ vs" and v: "map f vs = ys @ ss"
    using map_eq_append_conv[of f xs ps "ys @ ss"] by auto
  from v obtain b c where "vs = b @ c" and "map f b = ys"
    using map_eq_append_conv[of f vs ys ss] by auto
  with a have "xs = a @ b @ c" and "map f b = ys" by simp_all
  then show "\<exists>u. sublist u xs \<and> map f u = ys" by (auto simp add: sublist_def)
next
  assume "\<exists>u. sublist u xs \<and> map f u = ys"
  then obtain u ps ss where "xs = ps @ u @ ss" and "map f u = ys"
    by (auto simp add: sublist_def)
  then have "map f xs = map f ps @ ys @ map f ss" by simp
  then show "sublist ys (map f xs)" unfolding sublist_def by blast
qed

lemma contains_ci_code:
  "contains_ci s t \<longleftrightarrow> str_includes (toLowerCase s) (toLowerCase t)"
  by (simp add: contains_ci_def str_includes_sublist toLowerCase_def sublist_map_iff)

lemma filter_by_name_strings:
  "\<forall>p\<in>set products. \<exists>s. field p ''name'' = JStr s \<Longrightarrow>
   filter_by_name t products = Inr (filter (name_contains t) products)"
proof (induction products)
  case Nil
  then show ?case by simp
next
  case (Cons p products)
  then obtain s where s: "field p ''name'' = JStr s" by auto
  from Cons have ih: "filter_by_name t products = Inr (filter (name_contains t) products)"
    by simp
  have h: "name_contains t p = str_includes (toLowerCase s) (toLowerCase t)"
    by (simp add: name_contains_def s contains_ci_code)
  show ?case
    by (simp add: lower_name_def s ih h)
qed

text \<open>
  Claim C8. For a \<open>GET /api/products/search\<close> with a non-empty \<open>name\<close>, in a state
  in which every product's \<open>name\<close> is a string (the seed data are so, and
  \<open>validateProduct\<close> lets nothing else into a name), the answer is 200 with exactly
  the products whose name contains the term as a substring when the case of letters is
  ignored, in their order, and \<open>count\<close> is their number. On the seed data the term
  \<open>phone\<close> finds the one product named \<open>Smartphone\<close>. Letters are the ASCII letters.
\<close>

theorem search_returns_matches:
  assumes "req_method req = GET" and "req_path req = [''api'', ''products'', ''search'']"
    and "map_of (req_query req) ''name'' = Some t" and "t \<noteq> []"
    and "\<forall>p\<in>set products. \<exists>s. field p ''name'' = JStr s"
  shows "handle fmt uuid products req =
           (products,
            Response 200 (SearchReply (length (filter (name_contains t) products))
              (filter (name_contains t) products))) \<and>
         (\<forall>p. p \<in> set (filter (name_contains t) products) \<longleftrightarrow>
            p \<in> set products \<and>
            (\<exists>s u. field p ''name'' = JStr s \<and> sublist u s \<and> toLowerCase u = toLowerCase t))"
proof -
  have "handle fmt uuid products req =
           (products,
            Response 200 (SearchReply (length (filter (name_contains t) products))
              (filter (name_contains t) products)))"
    by (simp add: handle_search[OF assms(1,2)] search_products_def assms(3,4)
        filter_by_name_strings[OF assms(5)] finish_def)
  moreover have "\<forall>p. p \<in> set (filter (name_contains t) products) \<longleftrightarrow>
            p \<in> set products \<and>
            (\<exists>s u. field p ''name'' = JStr s \<and> sublist u s \<and> toLowerCase u = toLowerCase t)"
    by (auto simp add: name_contains_def contains_ci_def split: val.splits)
  ultimately show ?thesis by simp
qed

theorem search_returns_matches_witness:
  "\<forall>fmt uuid.
     handle fmt uuid seed
       \<lparr>req_method = GET, req_path = [''api'', ''products'', ''search''],
        req_query = [(''name'', ''phone'')], req_api_key = None, req_body = []\<rparr> =
       (seed, Response 200 (SearchReply 1 [seed ! 1])) \<and>
     field (seed ! 1) ''name'' = JStr ''Smartphone''"
proof (intro allI conjI)
  fix fmt :: "real \<Rightarrow> string" and uuid :: string
  let ?r = "\<lparr>req_method = GET, req_path = [''api'', ''products'', ''search''],
        req_query = [(''name'', ''phone'')], req_api_key = None, req_body = []\<rparr>"
  have n: "\<forall>p\<in>set seed. \<exists>s. field p ''name'' = JStr s"
    by (simp add: seed_def field_def)
  have f: "filter (name_contains ''phone'') seed = [seed ! 1]"
    by (simp add: name_contains_def contains_ci_code seed_def field_def toLowerCase_def
        lower_char_def)
  from search_returns_matches[of ?r "''phone''" seed fmt uuid, OF _ _ _ _ n]
  show "handle fmt uuid seed ?r = (seed, Response 200 (SearchReply 1 [seed ! 1]))"
    by (simp add: f)
  show "field (seed ! 1) ''name'' = JStr ''Smartphone''"
    by (simp add: seed_def field_def)
qed

section \<open>Stats\<close>

text \<open>
  Claim C9 says that the statistics map every category to the number of its products,
  in every state. On the seed data they do. They do not once a product has a category
  that names a property every object inherits: after a valid and authorized creation
  with the category \<open>toString\<close>, \<open>acc['toString']\<close> is the inherited function, not
  \<open>undefined\<close>, and \<open>(acc[k] || 0) + 1\<close> is that function's text followed by
  \<open>1\<close>, not the count 1.
\<close>

theorem stats_miscounts_inherited_category:
  "snd (handle fmt uuid'
          (fst (handle fmt uuid seed
             \<lparr>req_method = POST, req_path = [''api'', ''products''], req_query = [],
              req_api_key = Some ''mysecretapikey'',
              req_body = [(''name'', JStr ''Pen''), (''price'', JNum 2),
                          (''category'', JStr ''toString'')]\<rparr>))
          \<lparr>req_method = GET, req_path = [''api'', ''products'', ''stats''], req_query = [],
           req_api_key = None, req_body = []\<rparr>) =
     Response 200
       (StatsReply
          [(''electronics'', Count 2), (''kitchen'', Count 1),
           (''toString'', Text ''function toString() { [native code] }1'')])"
proof -
  have c: "fst (handle fmt uuid seed
             \<lparr>req_method = POST, req_path = [''api'', ''products''], req_query = [],
              req_api_key = Some ''mysecretapikey'',
              req_body = [(''name'', JStr ''Pen''), (''price'', JNum 2),
                          (''category'', JStr ''toString'')]\<rparr>) =
        seed @ [[(''id'', JStr uuid), (''name'', JStr ''Pen''), (''description'', JUndefined),
                 (''price'', JNum 2), (''category'', JStr ''toString''),
                 (''inStock'', JBool True)]]"
    by (simp add: handle_post route_create_def authenticate_def validateProduct_def field_def
        create_product_def new_product_def Let_def)
  have s: "stats fmt (seed @ [[(''id'', JStr uuid), (''name'', JStr ''Pen''),
                 (''description'', JUndefined), (''price'', JNum 2),
                 (''category'', JStr ''toString''), (''inStock'', JBool True)]]) =
          [(''electronics'', Count 2), (''kitchen'', Count 1),
           (''toString'', Text ''function toString() { [native code] }1'')]"
    by (simp add: stats_def seed_def stats_step_def category_key_def field_def assign_def bump_def
        object_prototype_def native_def)
  show ?thesis
    by (simp add: c handle_stats stats_products_def s)
qed

section \<open>Further properties\<close>

subsection \<open>Statistics of categories that name no inherited property\<close>

lemma stats_fold_keys:
  "fold (stats_step fmt) products acc =
   fold (\<lambda>k acc. assign acc k (bump acc k)) (map (category_key fmt) products) acc"
  by (induction products arbitrary: acc) (simp_all add: stats_step_def Let_def)

lemma tally_plain:
  assumes "\<forall>k\<in>set ks. map_of object_prototype k = None" and "\<forall>k v. map_of acc k = Some v \<longrightarrow> (\<exists>n. v = Count n)"
  shows "map_of (fold (\<lambda>k acc. assign acc k (bump acc k)) ks acc) k =
           (case map_of acc k of
              Some (Count n) \<Rightarrow> Some (Count (n + count_list ks k))
            | Some (Text s) \<Rightarrow> None
            | None \<Rightarrow> if count_list ks k = 0 then None else Some (Count (count_list ks k)))"
  using assms
proof (induction ks arbitrary: acc)
  case Nil
  then show ?case by (auto split: option.splits statv.splits)
next
  case (Cons x ks)
  from Cons.prems(1) have plain: "map_of object_prototype x = None" by simp
  then have np: "x \<noteq> ''__proto__''" by (auto simp add: object_prototype_def)
  define b where "b = (case map_of acc x of Some (Count n) \<Rightarrow> n + 1 | _ \<Rightarrow> 1)"
  have b: "bump acc x = Count b"
  proof (cases "map_of acc x")
    case None
    then show ?thesis by (simp add: bump_def plain b_def)
  next
    case (Some v)
    with Cons.prems(2) obtain n where "v = Count n" by auto
    with Some show ?thesis by (simp add: bump_def b_def)
  qed
  have a: "assign acc x (bump acc x) = AList.update x (Count b) acc"
    by (simp add: assign_def np b)
  have look: "map_of (AList.update x (Count b) acc) k =
      (if k = x then Some (Count b) else map_of acc k)"
    by (simp add: update_conv')
  have co: "\<forall>k v. map_of (AList.update x (Count b) acc) k = Some v \<longrightarrow> (\<exists>n. v = Count n)"
    using Cons.prems(2) by (auto simp add: update_conv')
  from Cons.prems(1) have ks: "\<forall>k\<in>set ks. map_of object_prototype k = None" by simp
  note ih = Cons.IH[OF ks co, unfolded look]
  show ?case
  proof (cases "k = x")
    case True
    show ?thesis
    proof (cases "map_of acc x")
      case None
      with True ih show ?thesis by (simp add: a b_def)
    next
      case (Some v)
      with Cons.prems(2) obtain n where "v = Count n" by auto
      with Some True ih show ?thesis by (simp add: a b_def)
    qed
  next
    case False
    then have "x \<noteq> k" by auto
    with False ih show ?thesis by (simp add: a split: option.splits statv.splits)
  qed
qed

text \<open>
  When no product's category key is the name of a property inherited from
  \<open>Object.prototype\<close>, the statistics hold, for every key, the number of products with
  that key, and no entry for a key no product has.
\<close>

theorem stats_counts_plain_categories:
  assumes "\<forall>p\<in>set products. map_of object_prototype (category_key fmt p) = None"
  shows "map_of (stats fmt products) k =
           (if k \<in> category_key fmt ` set products
            then Some (Count (length (filter (\<lambda>p. category_key fmt p = k) products)))
            else None)"
proof -
  have c: "count_list (map (category_key fmt) products) k =
        length (filter (\<lambda>p. category_key fmt p = k) products)"
    by (induction products) auto
  have z: "count_list (map (category_key fmt) products) k = 0 \<longleftrightarrow>
        k \<notin> category_key fmt ` set products"
    by (simp add: count_list_0_iff)
  from assms have "\<forall>x\<in>set (map (category_key fmt) products). map_of object_prototype x = None"
    by simp
  from tally_plain[OF this, of "[]" k] c z show ?thesis
    by (auto simp add: stats_def stats_fold_keys)
qed

theorem stats_counts_plain_categories_witness:
  "\<forall>fmt. map_of (stats fmt seed) ''electronics'' = Some (Count 2) \<and>
     map_of (stats fmt seed) ''kitchen'' = Some (Count 1) \<and>
     map_of (stats fmt seed) ''garden'' = None"
proof (intro allI)
  fix fmt :: "real \<Rightarrow> string"
  have p: "\<forall>p\<in>set seed. map_of object_prototype (category_key fmt p) = None"
    by (simp add: seed_def category_key_def field_def object_prototype_def)
  from stats_counts_plain_categories[OF p, of "''electronics''"]
    stats_counts_plain_categories[OF p, of "''kitchen''"]
    stats_counts_plain_categories[OF p, of "''garden''"]
  show "map_of (stats fmt seed) ''electronics'' = Some (Count 2) \<and>
     map_of (stats fmt seed) ''kitchen'' = Some (Count 1) \<and>
     map_of (stats fmt seed) ''garden'' = None"
    by (simp add: seed_def category_key_def field_def)
qed

subsection \<open>Names stay strings\<close>

lemma validated_has_name:
  "validateProduct body = None \<Longrightarrow> ''name'' \<in> fst ` set body"
  by (auto simp add: validateProduct_None_iff field_def split: option.splits)
     (force dest: map_of_SomeD)+

lemma fst_finish_read:
  "fst (finish products (map_sum id (Pair products) r)) = products"
  by (cases r) (simp_all add: finish_def)

lemma get_requests_leave_products:
  assumes "req_method req = GET \<or> req_method req = HEAD"
  shows "fst (handle fmt uuid products req) = products"
proof (cases "dispatch routes (req_method req) (req_path req)")
  case None
  then show ?thesis by (simp add: handle_def)
next
  case (Some hp)
  obtain h params where hp: "hp = (h, params)" by (cases hp)
  from Some hp assms have "h \<noteq> CreateProduct \<and> h \<noteq> UpdateProduct \<and> h \<noteq> DeleteProduct"
    by (auto simp add: routes_def handles_method_def split: if_splits option.splits)
  with Some hp show ?thesis
    by (cases h) (simp_all add: handle_def fst_finish_read)
qed

lemma names_after_update:
  assumes n: "\<forall>p\<in>set products. \<exists>s. field p ''name'' = JStr s"
    and v: "validateProduct body = None" and d: "distinct (map fst body)"
  shows "\<forall>p\<in>set (fst (finish products (update_product products i body))).
           \<exists>s. field p ''name'' = JStr s"
proof (cases "findIndex (has_id i) products")
  case None
  with n show ?thesis by (simp add: update_product_def finish_def)
next
  case (Some k)
  from v have "\<exists>s. field body ''name'' = JStr s" by (auto simp add: validateProduct_None_iff)
  with validated_has_name[OF v]
  have "\<exists>s. field (spread (products ! k) body) ''name'' = JStr s"
    by (simp add: field_spread[OF d])
  with n Some show ?thesis
    by (auto simp add: update_product_def finish_def Let_def dest!: set_update_subset_insert[THEN subsetD])
qed

lemma names_after_delete:
  assumes n: "\<forall>p\<in>set products. \<exists>s. field p ''name'' = JStr s"
  shows "\<forall>p\<in>set (fst (finish products (delete_product products i))).
           \<exists>s. field p ''name'' = JStr s"
proof (cases "findIndex (has_id i) products")
  case None
  with n show ?thesis by (simp add: delete_product_def finish_def)
next
  case (Some k)
  with n show ?thesis
    by (auto simp add: delete_product_def finish_def dest: in_set_takeD in_set_dropD)
qed

lemma names_after_create:
  assumes n: "\<forall>p\<in>set products. \<exists>s. field p ''name'' = JStr s"
    and v: "validateProduct body = None"
  shows "\<forall>p\<in>set (fst (create_product uuid products body)). \<exists>s. field p ''name'' = JStr s"
proof -
  from v have "\<exists>s. field body ''name'' = JStr s" by (auto simp add: validateProduct_None_iff)
  then have "\<exists>s. field (new_product uuid body) ''name'' = JStr s"
    by (simp add: new_product_def field_def)
  with n show ?thesis by (auto simp add: create_product_def Let_def)
qed

text \<open>
  If every product's \<open>name\<close> is a string, it is so after any request (whose body, a
  JSON object, has no property twice): the hypothesis of the search theorem holds in
  every state the server reaches from the seed data.
\<close>

theorem names_stay_strings:
  assumes n: "\<forall>p\<in>set products. \<exists>s. field p ''name'' = JStr s"
    and d: "distinct (map fst (req_body req))"
  shows "\<forall>p\<in>set (fst (handle fmt uuid products req)). \<exists>s. field p ''name'' = JStr s"
proof (cases "dispatch routes (req_method req) (req_path req)")
  case None
  with n show ?thesis by (simp add: handle_def)
next
  case (Some hp)
  obtain h params where hp: "hp = (h, params)" by (cases hp)
  show ?thesis
  proof (cases h)
    case CreateProduct
    with Some hp n names_after_create[OF n] show ?thesis
      by (auto simp add: handle_def route_create_def split: option.splits)
  next
    case UpdateProduct
    with Some hp n names_after_update[OF n _ d] show ?thesis
      by (auto simp add: handle_def route_update_def split: option.splits)
  next
    case DeleteProduct
    with Some hp n names_after_delete[OF n] show ?thesis
      by (auto simp add: handle_def route_delete_def split: option.splits)
  qed (use Some hp n in \<open>simp_all add: handle_def fst_finish_read\<close>)
qed

theorem names_stay_strings_witness:
  "\<forall>fmt. \<forall>p\<in>set (fst (handle fmt ''6ec0bd7f-11c0-43da-975e-2a8ad9ebae0b'' seed
       \<lparr>req_method = POST, req_path = [''api'', ''products''], req_query = [],
        req_api_key = Some ''mysecretapikey'',
        req_body = [(''name'', JStr ''Kettle''), (''price'', JNum 30)]\<rparr>)).
      \<exists>s. field p ''name'' = JStr s"
  using names_stay_strings
      [where products = seed and uuid = "''6ec0bd7f-11c0-43da-975e-2a8ad9ebae0b''"
         and req = "\<lparr>req_method = POST, req_path = [''api'', ''products''], req_query = [],
        req_api_key = Some ''mysecretapikey'',
        req_body = [(''name'', JStr ''Kettle''), (''price'', JNum 30)]\<rparr>"]
  by (simp add: seed_def field_def)

subsection \<open>Numbers beyond the safe integers\<close>

lemma bit_length_bounds:
  "0 < n \<Longrightarrow> 2 ^ (bit_length n - 1) \<le> n \<and> n < 2 ^ bit_length n"
proof (induction n rule: bit_length.induct)
  case (1 n)
  show ?case
  proof (cases "n div 2 = 0")
    case True
    with "1.prems" have "n = 1" by (simp add: div_eq_0_iff)
    then show ?thesis by (simp add: bit_length.simps)
  next
    case False
    with "1.IH" "1.prems" have ih: "2 ^ (bit_length (n div 2) - 1) \<le> n div 2"
      "n div 2 < 2 ^ bit_length (n div 2)" by simp_all
    from False have pos: "0 < bit_length (n div 2)" by (simp add: bit_length.simps)
    from "1.prems" have b: "bit_length n = Suc (bit_length (n div 2))"
      by (simp add: bit_length.simps[of n])
    from pos have "(2::nat) ^ bit_length (n div 2) = 2 * 2 ^ (bit_length (n div 2) - 1)"
      by (cases "bit_length (n div 2)") simp_all
    with ih show ?thesis by (simp add: b) arith
  qed
qed

lemma to_double_overflow:
  assumes "2 ^ 1024 \<le> \<bar>n\<bar>"
  shows "to_double n = (if n < 0 then NegInf else PosInf)"
proof -
  define a where "a = nat \<bar>n\<bar>"
  define e where "e = bit_length a - 53"
  from assms have big: "2 ^ 1024 \<le> a" by (simp add: a_def le_nat_iff)
  then have pos: "0 < a" by (metis less_le_trans zero_less_numeral zero_less_power)
  from bit_length_bounds[OF pos] have lo: "2 ^ (bit_length a - 1) \<le> a"
    and hi: "a < 2 ^ bit_length a" by simp_all
  from big hi have lt: "(2::nat) ^ 1024 < 2 ^ bit_length a" by (rule le_less_trans)
  have bl: "1024 < bit_length a"
  proof (rule power_less_imp_less_exp)
    show "(1::nat) < 2" by simp
    show "(2::nat) ^ 1024 < 2 ^ bit_length a" by (rule lt)
  qed
  then have ex: "bit_length a - 1 = 52 + e" by (simp add: e_def)
  with lo have "2 ^ 52 * 2 ^ e \<le> a" by (simp add: power_add)
  then have q: "2 ^ 52 \<le> a div 2 ^ e" by (simp add: less_eq_div_iff_mult_less_eq)
  from bl ex have "(2::nat) ^ 1024 \<le> 2 ^ (52 + e)"
    by (intro power_increasing) simp_all
  also have "\<dots> = 2 ^ 52 * 2 ^ e" by (simp add: power_add)
  also from q have "\<dots> \<le> (a div 2 ^ e) * 2 ^ e" by simp
  finally have m: "2 ^ 1024 \<le> (a div 2 ^ e) * 2 ^ e" .
  then have m': "2 ^ 1024 \<le> (a div 2 ^ e + 1) * 2 ^ e"
    by (simp add: algebra_simps)
  from assms have ns: "\<not> is_safe_integer n" by (simp add: is_safe_integer_def)
  show ?thesis
    using m m' by (simp add: to_double_def ns Let_def a_def[symmetric] e_def[symmetric])
qed

lemma digits_value_zeros:
  "fold (\<lambda>c acc. acc * 10 + (case digit_of 10 c of None \<Rightarrow> 0 | Some d \<Rightarrow> d))
     (replicate k CHR ''0'') acc = acc * 10 ^ k"
  by (induction k arbitrary: acc) (simp_all add: digit_of_def)

lemma parseInt_one_zeros:
  "parseInt (CHR ''1'' # CHR ''0'' # replicate k CHR ''0'') = to_double (10 ^ Suc k)"
proof -
  have d: "digit_of 10 CHR ''1'' = Some 1" "digit_of 10 CHR ''0'' = Some 0"
    by (simp_all add: digit_of_def)
  have t: "takeWhile (\<lambda>c. digit_of 10 c \<noteq> None) (CHR ''1'' # CHR ''0'' # replicate k CHR ''0'') =
      CHR ''1'' # CHR ''0'' # replicate k CHR ''0''"
    by (simp add: d takeWhile_eq_all_conv)
  have v: "digits_value 10 (CHR ''1'' # CHR ''0'' # replicate k CHR ''0'') = 10 ^ Suc k"
    by (simp add: digits_value_def d digits_value_zeros del: fold_replicate)
  show ?thesis
    by (simp add: parseInt_def is_ws_def Let_def d t v del: power_Suc)
qed


text \<open>
  A digit string that names no number exactly is rounded by \<open>parseInt\<close>, and a
  string of 310 digits is \<open>Infinity\<close>. With such a limit and the page 1, the first
  bound is \<open>0 * Infinity\<close>, which is \<open>NaN\<close>, and the data are empty.
\<close>

theorem list_rounds_page_and_limit:
  "(limit_of q = PosInf \<and> page_of q = Num 1 \<longrightarrow>
      list_products products q =
        Response 200 (ListReply (Num 1) (length (filtered_of products q)) [])) \<and>
   parseInt ''9007199254740993'' = Num 9007199254740992 \<and>
   parseInt (CHR ''1'' # CHR ''0'' # replicate 308 CHR ''0'') = PosInf"
proof (intro conjI impI)
  assume a: "limit_of q = PosInf \<and> page_of q = Num 1"
  then have s: "start_of q = NaN"
    by (simp add: start_of_def js_sub_Num to_double_def is_safe_integer_def)
  then have e: "end_of q = NaN" by (simp add: end_of_def)
  from a s e show "list_products products q =
      Response 200 (ListReply (Num 1) (length (filtered_of products q)) [])"
    by (simp add: list_products_def Let_def slice_NaN)
next
  have b: "bit_length 9007199254740993 = 54"
    by (simp add: bit_length.simps)
  show "parseInt ''9007199254740993'' = Num 9007199254740992"
    by (simp add: parseInt_def is_ws_def digit_of_def digits_value_def to_double_def
        is_safe_integer_def Let_def b)
next
  have "(2::int) ^ 1024 \<le> \<bar>10 ^ Suc 308\<bar>" by simp
  then have "to_double (10 ^ Suc 308) = PosInf"
    by (simp only: to_double_overflow) simp
  then show "parseInt (CHR ''1'' # CHR ''0'' # replicate 308 CHR ''0'') = PosInf"
    by (simp only: parseInt_one_zeros)
qed

theorem list_rounds_page_and_limit_witness:
  "list_products seed [(''limit'', CHR ''1'' # CHR ''0'' # replicate 308 CHR ''0'')] =
     Response 200 (ListReply (Num 1) 3 [])"
proof -
  let ?q = "[(''limit'', CHR ''1'' # CHR ''0'' # replicate 308 CHR ''0'')]"
  have l: "limit_of ?q = PosInf"
    using list_rounds_page_and_limit[of ?q seed] by (simp add: limit_of_def)
  have p: "page_of ?q = Num 1"
    by (simp add: page_of_def parseInt_defaults)
  have f: "filtered_of seed ?q = seed" by (simp add: filtered_of_def)
  have n: "length seed = 3" by (simp add: seed_def)
  from list_rounds_page_and_limit[of ?q seed, THEN conjunct1] l p
  show ?thesis by (simp add: f n)
qed

subsection \<open>Reads\<close>

text \<open>
  A \<open>GET\<close> request changes no product, and repeating it gives the same answer.
\<close>

theorem reads_leave_products:
  assumes "req_method req = GET"
  shows "fst (handle fmt uuid products req) = products \<and>
         handle fmt uuid' (fst (handle fmt uuid products req)) req = handle fmt uuid products req"
proof -
  have f: "fst (handle fmt uuid products req) = products"
    using assms by (simp add: get_requests_leave_products)
  have "handle fmt uuid' products req = handle fmt uuid products req"
  proof (cases "dispatch routes (req_method req) (req_path req)")
    case None
    then show ?thesis by (simp add: handle_def)
  next
    case (Some hp)
    obtain h params where hp: "hp = (h, params)" by (cases hp)
    from Some hp assms have "h \<noteq> CreateProduct"
      by (auto simp add: routes_def handles_method_def split: if_splits option.splits)
    with Some hp show ?thesis
      by (cases h) (simp_all add: handle_def)
  qed
  with f show ?thesis by simp
qed

theorem reads_leave_products_witness:
  "\<forall>fmt uuid uuid'.
     fst (handle fmt uuid seed
       \<lparr>req_method = GET, req_path = [''api'', ''products'', ''2''], req_query = [],
        req_api_key = None, req_body = []\<rparr>) = seed \<and>
     handle fmt uuid' (fst (handle fmt uuid seed
       \<lparr>req_method = GET, req_path = [''api'', ''products'', ''2''], req_query = [],
        req_api_key = None, req_body = []\<rparr>))
       \<lparr>req_method = GET, req_path = [''api'', ''products'', ''2''], req_query = [],
        req_api_key = None, req_body = []\<rparr> =
     handle fmt uuid seed
       \<lparr>req_method = GET, req_path = [''api'', ''products'', ''2''], req_query = [],
        req_api_key = None, req_body = []\<rparr>"
proof (intro allI)
  fix fmt :: "real \<Rightarrow> string" and uuid uuid' :: string
  let ?r = "\<lparr>req_method = GET, req_path = [''api'', ''products'', ''2''], req_query = [],
        req_api_key = None, req_body = []\<rparr>"
  have "req_method ?r = GET" by simp
  then show "fst (handle fmt uuid seed ?r) = seed \<and>
      handle fmt uuid' (fst (handle fmt uuid seed ?r)) ?r = handle fmt uuid seed ?r"
    by (rule reads_leave_products)
qed

end
